theory Spec2Isabelle
  imports Complex_Main "HOL-Library.Multiset" "HOL-Library.Sublist"
    "HOL-Library.List_Lexorder" "HOL-Library.Char_ord" "HOL-Library.Log_Nat"
begin

section \<open>data_processing.py: validate_data\<close>

text \<open>
  \<^verbatim>\<open>
  required_columns = ['InvoiceNo', 'StockCode', 'Description', 'Quantity',
                      'InvoiceDate', 'UnitPrice', 'CustomerID', 'Country']
  missing_columns = [col for col in required_columns if col not in df.columns]
  return missing_columns
  \<close>
  The function reads nothing of the frame but \<open>df.columns\<close>, so the model takes the
  column labels.
\<close>

definition required_columns :: "string list" where
  "required_columns =
     [''InvoiceNo'', ''StockCode'', ''Description'', ''Quantity'',
      ''InvoiceDate'', ''UnitPrice'', ''CustomerID'', ''Country'']"

definition validate_data :: "string list \<Rightarrow> string list" where
  "validate_data columns = filter (\<lambda>col. col \<notin> set columns) required_columns"

section \<open>analytics.py: get_rfm_segment_meaning\<close>

text \<open>
  The row handed to \<open>get_rfm_segment_meaning\<close> carries more columns than the three it
  reads; the record is extensible so that any row with \<open>R\<close>, \<open>F\<close> and \<open>M\<close> fits.
\<close>

record scores =
  R :: int
  F :: int
  M :: int

definition get_rfm_segment_meaning :: "'a scores_scheme \<Rightarrow> string" where
  "get_rfm_segment_meaning row =
     (if R row \<ge> 4 \<and> F row \<ge> 4 \<and> M row \<ge> 4 then ''Best Customers''
      else if R row \<ge> 3 \<and> F row \<ge> 3 then ''Loyal Customers''
      else if R row \<ge> 3 \<and> M row \<ge> 3 then ''Big Spenders''
      else if R row \<le> 2 \<and> F row \<le> 2 then ''At Risk''
      else if R row \<le> 2 then ''Needs Attention''
      else ''Others'')"

text \<open>
  The specification's wording of the same decision: a table of six (condition, label)
  pairs in priority order, read from the top, the first pair whose condition holds giving
  the label.
\<close>

definition spec_segment_rules :: "((int \<times> int \<times> int \<Rightarrow> bool) \<times> string) list" where
  "spec_segment_rules =
     [(\<lambda>(r, f, m). r \<ge> 4 \<and> f \<ge> 4 \<and> m \<ge> 4, ''Best Customers''),
      (\<lambda>(r, f, m). r \<ge> 3 \<and> f \<ge> 3, ''Loyal Customers''),
      (\<lambda>(r, f, m). r \<ge> 3 \<and> m \<ge> 3, ''Big Spenders''),
      (\<lambda>(r, f, m). r \<le> 2 \<and> f \<le> 2, ''At Risk''),
      (\<lambda>(r, f, m). r \<le> 2, ''Needs Attention''),
      (\<lambda>(r, f, m). True, ''Others'')]"

fun first_match :: "(('a \<Rightarrow> bool) \<times> 'b) list \<Rightarrow> 'a \<Rightarrow> 'b option" where
  "first_match [] x = None"
| "first_match ((c, l) # rules) x = (if c x then Some l else first_match rules x)"

section \<open>The transaction table\<close>

text \<open>
  A DataFrame of transactions is the list of its rows, in row order. The record names the
  columns the analytics read; it is extensible, so the remaining columns of the file
  (StockCode, UnitPrice, Country) live in the extension and take part in row equality.
  \<^item> \<open>InvoiceDate\<close> is a \<open>datetime64[ns]\<close> value: nanoseconds since the epoch. Every
    row carries one: a missing date (NaT) is not modelled.
  \<^item> \<open>CustomerID\<close> is nullable: \<open>None\<close> is the missing value (NaN).
  \<^item> \<open>TotalPrice\<close> is \<open>Quantity * UnitPrice\<close> as \<open>transform_data\<close> stores it: an
    integer cell when both factors are integers, a float cell otherwise. A float64
    value is the rational it stands for; the sum of a float64 column is the exact sum
    of these rationals, and the divisions and products of \<open>calculate_clv\<close> round to
    float64.
\<close>

datatype error =
  ValueError | KeyError | TypeError | FileNotFoundError | OutOfBoundsDatetime | OverflowError

datatype dtype = int64 | float64

datatype cell = IntCell int | FloatCell rat

fun cell_value :: "cell \<Rightarrow> rat" where
  "cell_value (IntCell i) = of_int i"
| "cell_value (FloatCell q) = q"

fun is_IntCell :: "cell \<Rightarrow> bool" where
  "is_IntCell (IntCell i) = True"
| "is_IntCell (FloatCell q) = False"

text \<open>
  A column holds one dtype: int64 when every value is an integer, float64 as soon as one
  is not. The common dtype of several numeric columns follows the same promotion.
\<close>

definition column_dtype :: "cell list \<Rightarrow> dtype" where
  "column_dtype col = (if list_all is_IntCell col then int64 else float64)"

definition common_dtype :: "dtype list \<Rightarrow> dtype" where
  "common_dtype ds = (if list_all (\<lambda>d. d = int64) ds then int64 else float64)"

record transaction =
  InvoiceNo :: string
  Description :: string
  Quantity :: int
  InvoiceDate :: int
  CustomerID :: "int option"
  TotalPrice :: cell

definition day_ns :: int where
  "day_ns = 86400000000000"

text \<open>
  A Timestamp and a Timedelta are int64 counts of nanoseconds; the largest of either is
  2^63 - 1. Arithmetic on them that leaves the range raises.
\<close>

definition Timestamp_max :: int where
  "Timestamp_max = 9223372036854775807"

definition Timedelta_max :: int where
  "Timedelta_max = 9223372036854775807"

text \<open>The sum of an int64 column wraps around silently.\<close>

definition wrap_int64 :: "int \<Rightarrow> int" where
  "wrap_int64 x = (x + 9223372036854775808) mod 18446744073709551616 - 9223372036854775808"

fun cell_int :: "cell \<Rightarrow> int" where
  "cell_int (IntCell i) = i"
| "cell_int (FloatCell q) = \<lfloor>q\<rfloor>"

text \<open>
  \<open>sum\<close> of the TotalPrice values of a group: the wrapping integer sum in an int64
  column, the sum of the values in a float64 column (there the rounding of the float64
  additions is not modelled: the sum is exact).
\<close>

definition price_sum :: "dtype \<Rightarrow> cell list \<Rightarrow> rat" where
  "price_sum dt cells =
     (case dt of
        int64 \<Rightarrow> of_int (wrap_int64 (sum_list (map cell_int cells)))
      | float64 \<Rightarrow> sum_list (map cell_value cells))"

text \<open>\<open>Timedelta.days\<close>: whole days, rounded towards minus infinity.\<close>

definition timedelta_days :: "int \<Rightarrow> int" where
  "timedelta_days delta = delta div day_ns"

text \<open>\<open>Series.max()\<close> of a datetime column; \<open>None\<close> is NaT, the result on no rows.\<close>

definition series_max :: "int list \<Rightarrow> int option" where
  "series_max xs = (case xs of [] \<Rightarrow> None | x # ys \<Rightarrow> Some (fold max ys x))"

text \<open>
  \<open>df.groupby(key)\<close> with its defaults (\<open>sort=True\<close>, \<open>dropna=True\<close>): one group per
  distinct non-missing key, the groups in ascending key order, each group holding its
  rows in frame order.
\<close>

definition groupby :: "('r \<Rightarrow> 'k::linorder option) \<Rightarrow> 'r list \<Rightarrow> ('k \<times> 'r list) list" where
  "groupby key df =
     map (\<lambda>k. (k, filter (\<lambda>r. key r = Some k) df)) (sort (remdups (List.map_filter key df)))"

section \<open>analytics.py: calculate_rfm\<close>

text \<open>
  Lines 15 to 23: the snapshot date and the per-customer aggregation. The maximum of an
  empty \<open>InvoiceDate\<close> column is NaT, and NaT plus a day is NaT; the frame then has no
  group either and the aggregate is empty. Otherwise \<open>max() + timedelta(days=1)\<close> raises
  OutOfBoundsDatetime when the sum exceeds the largest Timestamp, and so does the
  subtraction of two Timestamps in the lambda of line 17 when the difference exceeds the
  largest Timedelta. Both lie outside the \<open>try\<close> of lines 27 to 33.
\<close>

record customer_aggregate =
  customer :: int
  Recency :: int
  Frequency :: int
  MonetaryValue :: rat

definition rfm_aggregate :: "'a transaction_scheme list \<Rightarrow> error + customer_aggregate list" where
  "rfm_aggregate df =
     (case series_max (map InvoiceDate df) of
        None \<Rightarrow> Inr []
      | Some latest \<Rightarrow>
          if Timestamp_max < latest + day_ns then Inl OutOfBoundsDatetime
          else
            let snapshot_date = latest + day_ns;
                groups = groupby CustomerID df
            in if list_ex (\<lambda>(c, g). Timedelta_max < snapshot_date - Max (set (map InvoiceDate g)))
                    groups
               then Inl OutOfBoundsDatetime
               else
                 Inr (map (\<lambda>(c, g).
                        \<lparr>customer = c,
                         Recency = timedelta_days (snapshot_date - Max (set (map InvoiceDate g))),
                         Frequency = int (length (remdups (map InvoiceNo g))),
                         MonetaryValue =
                           price_sum (column_dtype (map TotalPrice df)) (map TotalPrice g)\<rparr>)
                      groups))"

text \<open>
  \<open>Series.rank(method='first')\<close>: ranks 1, 2, ... in ascending order of the values, equal
  values ranked in the order they appear in the column. The ranks are floats.
\<close>

definition rank_first :: "'v::linorder list \<Rightarrow> rat list" where
  "rank_first col =
     map (\<lambda>i. of_nat (Suc (length (filter (\<lambda>j. col ! j < col ! i \<or> (col ! j = col ! i \<and> j < i))
                                         [0..<length col]))))
         [0..<length col]"

text \<open>
  The quantile of sorted values at fraction \<open>q\<close> with linear interpolation, as \<open>qcut\<close>
  computes its bin edges: position \<open>q * (n - 1)\<close>, the value there when the position is
  whole, else the interpolation between its two neighbours.
\<close>

definition quantile :: "rat list \<Rightarrow> rat \<Rightarrow> rat" where
  "quantile vals q =
     (let idx = q * of_nat (length vals - 1); lo = nat \<lfloor>idx\<rfloor> in
      if idx = of_int \<lfloor>idx\<rfloor> then vals ! lo
      else vals ! lo + (vals ! (lo + 1) - vals ! lo) * (idx - of_int \<lfloor>idx\<rfloor>))"

text \<open>\<open>bins.searchsorted(v, side='left')\<close> on sorted edges: how many edges lie below \<open>v\<close>.\<close>

definition searchsorted_left :: "rat list \<Rightarrow> rat \<Rightarrow> nat" where
  "searchsorted_left bins v = length (filter (\<lambda>b. b < v) bins)"

text \<open>
  \<open>pd.qcut(x, q=4, labels=labels).astype(int)\<close>. The five edges are the quantiles at
  0, 1/4, 1/2, 3/4 and 1. \<open>qcut\<close> raises ValueError when the edges are not unique (on an
  empty \<open>x\<close> all five are NaN) and when the labels are not one fewer than the edges. A
  value falls into the bin that is open at its lower edge and closed at its upper edge,
  the lowest edge belonging to the first bin;
  a value in no bin becomes NaN, on which \<open>astype(int)\<close> raises ValueError.
\<close>

definition qcut :: "rat list \<Rightarrow> int list \<Rightarrow> error + int list" where
  "qcut x labels =
     (if x = [] then Inl ValueError
      else
        let bins = map (quantile (sort x)) [0, 1/4, 1/2, 3/4, 1] in
        if \<not> distinct bins then Inl ValueError
        else if length labels \<noteq> length bins - 1 then Inl ValueError
        else
          let ids = map (\<lambda>v. if v = bins ! 0 then 1 else searchsorted_left bins v) x in
          if list_ex (\<lambda>i. i = 0 \<or> i = length bins) ids then Inl ValueError
          else Inr (map (\<lambda>i. labels ! (i - 1)) ids))"

text \<open>
  One round of the loop of lines 26 to 33: the \<open>try\<close> body, and the \<open>except ValueError\<close>
  branch that gives every row the score 2. Any other exception would propagate.
\<close>

definition score_column :: "rat list \<Rightarrow> int list \<Rightarrow> error + int list" where
  "score_column col labels =
     (case qcut (rank_first col) labels of
        Inr s \<Rightarrow> Inr s
      | Inl ValueError \<Rightarrow> Inr (replicate (length col) 2)
      | Inl e \<Rightarrow> Inl e)"

text \<open>Python's \<open>str\<close> of an integer: its decimal digits, with a sign when negative.\<close>

function digits :: "nat \<Rightarrow> string" where
  "digits n =
     (if n < 10 then [''0123456789'' ! n] else digits (n div 10) @ [''0123456789'' ! (n mod 10)])"
  by pat_completeness auto
termination
  by (relation "measure id") auto

declare digits.simps [simp del]

definition str_int :: "int \<Rightarrow> string" where
  "str_int i = (if i < 0 then CHR ''-'' # digits (nat (- i)) else digits (nat i))"

text \<open>
  Line 35 builds the segment code with \<open>rfm.apply(lambda x: ..., axis=1)\<close>. With
  \<open>axis=1\<close> every row reaches the lambda as a Series of the frame's values, and a Series
  has one dtype: the common dtype of the columns. The frame holds Recency, Frequency, R,
  F and M, which are int64, and MonetaryValue, which has the dtype of the TotalPrice
  column. So \<open>x['R']\<close> is an int64 scalar when TotalPrice is an integer column and a
  float64 scalar otherwise. \<open>str\<close> of a float64 with a whole value below 1e16 is the
  integer's digits followed by \<open>.0\<close>. Line 36 sums the three int64 columns R, F and M
  row by row. On a frame without rows both calls return a column without rows.
\<close>

datatype np_scalar = np_int64 int | np_float64 int

definition row_scalar :: "dtype \<Rightarrow> int \<Rightarrow> np_scalar" where
  "row_scalar dt v = (case dt of int64 \<Rightarrow> np_int64 v | float64 \<Rightarrow> np_float64 v)"

fun str :: "np_scalar \<Rightarrow> string" where
  "str (np_int64 i) = str_int i"
| "str (np_float64 i) = str_int i @ ''.0''"

record rfm_row = scores +
  aggregate :: customer_aggregate
  RFM_Segment :: string
  RFM_Score :: int

definition calculate_rfm :: "'a transaction_scheme list \<Rightarrow> error + rfm_row list" where
  "calculate_rfm df =
     (case rfm_aggregate df of
        Inl e \<Rightarrow> Inl e
      | Inr rfm \<Rightarrow>
      let row_dtype = common_dtype [int64, int64, column_dtype (map TotalPrice df),
                                    int64, int64, int64]
      in
      case score_column (map (\<lambda>a. of_int (Recency a)) rfm) [4, 3, 2, 1] of
        Inl e \<Rightarrow> Inl e
      | Inr r \<Rightarrow>
      case score_column (map (\<lambda>a. of_int (Frequency a)) rfm) [1, 2, 3, 4] of
        Inl e \<Rightarrow> Inl e
      | Inr f \<Rightarrow>
      case score_column (map MonetaryValue rfm) [1, 2, 3, 4] of
        Inl e \<Rightarrow> Inl e
      | Inr m \<Rightarrow>
          Inr (map (\<lambda>(a, r, f, m).
                      \<lparr>R = r, F = f, M = m, aggregate = a,
                       RFM_Segment = str (row_scalar row_dtype r) @ str (row_scalar row_dtype f)
                                     @ str (row_scalar row_dtype m),
                       RFM_Score = r + f + m\<rparr>)
                   (zip rfm (zip r (zip f m)))))"

type_synonym ref = nat

text \<open>
  \<open>calculate_rfm\<close> as a call on the objects of its caller. The heap is the list of the
  objects alive; a reference is a position in it, and a new object is appended. The
  objects are the transaction frames the caller holds and the frames the function
  builds: an index (the customers), the numeric columns in their order, and the text
  columns.
\<close>

datatype column = int64_column "int list" | float64_column "rat list"

fun column_values :: "column \<Rightarrow> rat list" where
  "column_values (int64_column vs) = map of_int vs"
| "column_values (float64_column qs) = qs"

fun dtype_of :: "column \<Rightarrow> dtype" where
  "dtype_of (int64_column vs) = int64"
| "dtype_of (float64_column qs) = float64"

definition price_column :: "dtype \<Rightarrow> rat list \<Rightarrow> column" where
  "price_column dt qs =
     (case dt of int64 \<Rightarrow> int64_column (map (\<lambda>q. \<lfloor>q\<rfloor>) qs) | float64 \<Rightarrow> float64_column qs)"

record frame =
  frame_index :: "int list"
  frame_columns :: "(string \<times> column) list"
  text_columns :: "(string \<times> string list) list"

datatype 'a object = Transactions "'a transaction_scheme list" | Frame frame

type_synonym 'a heap = "'a object list"

text \<open>
  \<open>rfm[label]\<close> raises KeyError on a label the frame has not; \<open>rfm[label] = values\<close>
  replaces the column of that label or appends a new one, and \<open>rename(columns=...,
  inplace=True)\<close> relabels the columns, both in the object \<open>rfm\<close> refers to.
\<close>

definition lookup :: "'a heap \<Rightarrow> ref \<Rightarrow> 'a object option" where
  "lookup h r = (if r < length h then Some (h ! r) else None)"

definition frame_at :: "'a heap \<Rightarrow> ref \<Rightarrow> error + frame" where
  "frame_at h r = (case lookup h r of Some (Frame f) \<Rightarrow> Inr f | _ \<Rightarrow> Inl TypeError)"

definition getitem :: "frame \<Rightarrow> string \<Rightarrow> error + column" where
  "getitem f label = (case map_of (frame_columns f) label of Some c \<Rightarrow> Inr c | None \<Rightarrow> Inl KeyError)"

fun assign :: "'k \<Rightarrow> 'v \<Rightarrow> ('k \<times> 'v) list \<Rightarrow> ('k \<times> 'v) list" where
  "assign k v [] = [(k, v)]"
| "assign k v ((k', v') # kvs) = (if k' = k then (k, v) # kvs else (k', v') # assign k v kvs)"

definition setitem_inplace :: "ref \<Rightarrow> string \<Rightarrow> column \<Rightarrow> 'a heap \<Rightarrow> error + 'a heap" where
  "setitem_inplace r label c h =
     (case frame_at h r of
        Inl e \<Rightarrow> Inl e
      | Inr f \<Rightarrow> Inr (h[r := Frame (f\<lparr>frame_columns := assign label c (frame_columns f)\<rparr>)]))"

definition settext_inplace ::
  "ref \<Rightarrow> string \<Rightarrow> string list \<Rightarrow> 'a heap \<Rightarrow> error + 'a heap" where
  "settext_inplace r label c h =
     (case frame_at h r of
        Inl e \<Rightarrow> Inl e
      | Inr f \<Rightarrow> Inr (h[r := Frame (f\<lparr>text_columns := assign label c (text_columns f)\<rparr>)]))"

definition rename_inplace :: "ref \<Rightarrow> (string \<times> string) list \<Rightarrow> 'a heap \<Rightarrow> error + 'a heap" where
  "rename_inplace r mapper h =
     (case frame_at h r of
        Inl e \<Rightarrow> Inl e
      | Inr f \<Rightarrow>
          Inr (h[r := Frame (f\<lparr>frame_columns :=
                 map (\<lambda>(label, c). (case map_of mapper label of Some new \<Rightarrow> new | None \<Rightarrow> label, c))
                     (frame_columns f)\<rparr>)]))"

text \<open>
  Lines 15 to 21: \<open>df.groupby('CustomerID').agg(...)\<close> reads the caller's frame and
  allocates the frame of the aggregates. The counts and the recencies are int64;
  \<open>TotalPrice\<close> keeps the dtype of the column it sums. When line 15 or the lambda of
  line 17 raises, nothing has been allocated.
\<close>

definition groupby_agg :: "ref \<Rightarrow> 'a heap \<Rightarrow> (error + ref) \<times> 'a heap" where
  "groupby_agg df h =
     (case lookup h df of
        Some (Transactions rows) \<Rightarrow>
          (case rfm_aggregate rows of
             Inl e \<Rightarrow> (Inl e, h)
           | Inr agg \<Rightarrow>
               (Inr (length h),
                h @ [Frame \<lparr>frame_index = map customer agg,
                            frame_columns =
                              [(''InvoiceDate'', int64_column (map Recency agg)),
                               (''InvoiceNo'', int64_column (map Frequency agg)),
                               (''TotalPrice'',
                                price_column (column_dtype (map TotalPrice rows))
                                  (map MonetaryValue agg))],
                            text_columns = []\<rparr>]))
      | _ \<Rightarrow> (Inl TypeError, h))"

text \<open>
  Lines 26 to 33: the loop over the three metrics; \<open>col[0]\<close> is the first letter of
  the column's label. \<open>score_column\<close> holds the \<open>try\<close> and its \<open>except ValueError\<close>.
\<close>

definition assign_score :: "ref \<Rightarrow> string \<Rightarrow> int list \<Rightarrow> 'a heap \<Rightarrow> error + 'a heap" where
  "assign_score rfm col labels h =
     (case frame_at h rfm of
        Inl e \<Rightarrow> Inl e
      | Inr f \<Rightarrow>
      case getitem f col of
        Inl e \<Rightarrow> Inl e
      | Inr c \<Rightarrow>
      case score_column (column_values c) labels of
        Inl e \<Rightarrow> Inl e
      | Inr s \<Rightarrow> setitem_inplace rfm (take 1 col) (int64_column s) h)"

fun scoring_loop :: "ref \<Rightarrow> (string \<times> int list) list \<Rightarrow> 'a heap \<Rightarrow> error + 'a heap" where
  "scoring_loop rfm [] h = Inr h"
| "scoring_loop rfm ((col, labels) # rest) h =
     (case assign_score rfm col labels h of
        Inl e \<Rightarrow> Inl e
      | Inr h' \<Rightarrow> scoring_loop rfm rest h')"

text \<open>
  Lines 35 and 36, on the columns of the frame: the rows of \<open>apply(axis=1)\<close> have the
  common dtype of the six columns the frame holds at that point.
\<close>

definition int64_values :: "frame \<Rightarrow> string \<Rightarrow> error + int list" where
  "int64_values f label =
     (case getitem f label of
        Inl e \<Rightarrow> Inl e
      | Inr (int64_column vs) \<Rightarrow> Inr vs
      | Inr (float64_column qs) \<Rightarrow> Inl TypeError)"

definition segment_codes :: "frame \<Rightarrow> error + string list" where
  "segment_codes f =
     (let row_dtype = common_dtype (map (\<lambda>(label, c). dtype_of c) (frame_columns f)) in
      case int64_values f ''R'' of
        Inl e \<Rightarrow> Inl e
      | Inr r \<Rightarrow>
      case int64_values f ''F'' of
        Inl e \<Rightarrow> Inl e
      | Inr fs \<Rightarrow>
      case int64_values f ''M'' of
        Inl e \<Rightarrow> Inl e
      | Inr m \<Rightarrow>
          Inr (map (\<lambda>i. str (row_scalar row_dtype (r ! i)) @ str (row_scalar row_dtype (fs ! i))
                         @ str (row_scalar row_dtype (m ! i)))
                   [0..<length (frame_index f)]))"

definition score_sums :: "frame \<Rightarrow> error + int list" where
  "score_sums f =
     (case int64_values f ''R'' of
        Inl e \<Rightarrow> Inl e
      | Inr r \<Rightarrow>
      case int64_values f ''F'' of
        Inl e \<Rightarrow> Inl e
      | Inr fs \<Rightarrow>
      case int64_values f ''M'' of
        Inl e \<Rightarrow> Inl e
      | Inr m \<Rightarrow> Inr (map (\<lambda>i. r ! i + fs ! i + m ! i) [0..<length (frame_index f)]))"

text \<open>
  The whole call. It returns the reference of the frame it built and the heap it
  leaves; when a step raises, the exception and the heap as it is at that point.
\<close>

definition calculate_rfm_call :: "ref \<Rightarrow> 'a heap \<Rightarrow> (error + ref) \<times> 'a heap" where
  "calculate_rfm_call df h =
     (case groupby_agg df h of
        (Inl e, h1) \<Rightarrow> (Inl e, h1)
      | (Inr rfm, h1) \<Rightarrow>
      case rename_inplace rfm [(''InvoiceDate'', ''Recency''), (''InvoiceNo'', ''Frequency''),
                               (''TotalPrice'', ''MonetaryValue'')] h1 of
        Inl e \<Rightarrow> (Inl e, h1)
      | Inr h2 \<Rightarrow>
      case scoring_loop rfm [(''Recency'', [4, 3, 2, 1]), (''Frequency'', [1, 2, 3, 4]),
                             (''MonetaryValue'', [1, 2, 3, 4])] h2 of
        Inl e \<Rightarrow> (Inl e, h2)
      | Inr h3 \<Rightarrow>
      case frame_at h3 rfm of
        Inl e \<Rightarrow> (Inl e, h3)
      | Inr f3 \<Rightarrow>
      case segment_codes f3 of
        Inl e \<Rightarrow> (Inl e, h3)
      | Inr codes \<Rightarrow>
      case settext_inplace rfm ''RFM_Segment'' codes h3 of
        Inl e \<Rightarrow> (Inl e, h3)
      | Inr h4 \<Rightarrow>
      case frame_at h4 rfm of
        Inl e \<Rightarrow> (Inl e, h4)
      | Inr f4 \<Rightarrow>
      case score_sums f4 of
        Inl e \<Rightarrow> (Inl e, h4)
      | Inr totals \<Rightarrow>
      case setitem_inplace rfm ''RFM_Score'' (int64_column totals) h4 of
        Inl e \<Rightarrow> (Inl e, h4)
      | Inr h5 \<Rightarrow> (Inr rfm, h5))"

section \<open>analytics.py: calculate_clv and get_top_products\<close>

text \<open>
  float64 arithmetic. A float64 has 53 significant bits; the result of an operation is
  the exact result rounded to the nearest float64, a tie going to the even significand.
  \<open>floor_log2 x\<close> is the exponent \<open>e\<close> with \<open>2^e \<le> x < 2^(e+1)\<close>, bounded below by -1022
  where the subnormal numbers start. Values beyond the largest float64 are not
  modelled: the exponent is not bounded above. A division or a product of columns
  converts an int64 operand to float64 first, which rounds it when it has more than 53
  bits.
\<close>

definition pow2 :: "int \<Rightarrow> rat" where
  "pow2 e = (if 0 \<le> e then 2 ^ nat e else 1 / 2 ^ nat (- e))"

definition floor_log2 :: "rat \<Rightarrow> int" where
  "floor_log2 x =
     (let (p, q) = quotient_of x;
          d = bitlen p - bitlen q
      in if pow2 d \<le> x then d else d - 1)"

definition round_half_even :: "rat \<Rightarrow> int" where
  "round_half_even y =
     (let f = \<lfloor>y\<rfloor>;
          r = y - of_int f
      in if r < 1 / 2 then f else if 1 / 2 < r then f + 1 else if even f then f else f + 1)"

definition round64 :: "rat \<Rightarrow> rat" where
  "round64 x =
     (if x = 0 then 0
      else let e = max (floor_log2 \<bar>x\<bar>) (- 1022);
               ulp = pow2 (e - 52)
           in of_int (round_half_even (x / ulp)) * ulp)"

definition true_divide :: "rat \<Rightarrow> rat \<Rightarrow> rat" where
  "true_divide a b = round64 (round64 a / round64 b)"

definition multiply :: "rat \<Rightarrow> rat \<Rightarrow> rat" where
  "multiply a b = round64 (round64 a * round64 b)"

text \<open>
  \<open>sort_values(by=..., ascending=False)\<close> is called with its default \<open>kind='quicksort'\<close>.
  pandas reverses the column, asks numpy for the \<open>argsort\<close> of the reversed keys,
  takes the rows in that order and reverses the result. numpy documents of its
  quicksort that the positions it returns sort the keys; it chooses the algorithm by
  the length of the array and by the processor, and the order it leaves equal keys in
  is not documented. So \<open>argsort\<close> is a parameter of the model, and
  \<open>argsort_contract\<close> is what numpy documents of it.
\<close>

definition argsort_contract :: "('v::linorder list \<Rightarrow> nat list) \<Rightarrow> bool" where
  "argsort_contract argsort \<longleftrightarrow>
     (\<forall>xs. mset (argsort xs) = mset [0..<length xs]
         \<and> sorted (map (\<lambda>i. xs ! i) (argsort xs)))"

definition sort_values_descending ::
  "('v::linorder list \<Rightarrow> nat list) \<Rightarrow> ('a \<Rightarrow> 'v) \<Rightarrow> 'a list \<Rightarrow> 'a list" where
  "sort_values_descending argsort key xs =
     (let reversed = rev xs;
          indexer = argsort (map key reversed)
      in rev (map (\<lambda>i. reversed ! i) indexer))"

text \<open>
  Lines 65 to 75, for one customer. \<open>nunique\<close> counts the distinct invoice numbers; the
  sum of the int64 column \<open>Quantity\<close> wraps around; \<open>total_revenue\<close> is the same
  \<open>('TotalPrice', 'sum')\<close> as in \<open>calculate_rfm\<close>. The two divisions and the two
  products of lines 73 to 75 are float64 operations on columns. Neither divisor is
  zero: a customer has at least one invoice, and a lifespan is at least 0.
\<close>

record clv_row =
  clv_customer :: int
  total_transactions :: int
  total_products :: int
  total_revenue :: rat
  first_purchase_date :: int
  last_purchase_date :: int
  purchase_lifespan :: int
  avg_order_value :: rat
  purchase_frequency :: rat
  clv :: rat

definition clv_record :: "dtype \<Rightarrow> int \<Rightarrow> 'a transaction_scheme list \<Rightarrow> clv_row" where
  "clv_record dt c g =
     (let transactions = int (length (remdups (map InvoiceNo g)));
          products = wrap_int64 (sum_list (map Quantity g));
          revenue = price_sum dt (map TotalPrice g);
          first_date = Min (set (map InvoiceDate g));
          last_date = Max (set (map InvoiceDate g));
          lifespan = timedelta_days (last_date - first_date);
          order_value = true_divide revenue (of_int transactions);
          frequency = true_divide (of_int transactions) (of_int (lifespan + 1))
      in \<lparr>clv_customer = c, total_transactions = transactions, total_products = products,
           total_revenue = revenue, first_purchase_date = first_date,
           last_purchase_date = last_date, purchase_lifespan = lifespan,
           avg_order_value = order_value, purchase_frequency = frequency,
           clv = multiply (multiply order_value frequency) 365\<rparr>)"

text \<open>
  Line 72 subtracts the two date columns as a whole and raises OverflowError when the
  difference of one row exceeds the largest Timedelta. Line 76 sorts by \<open>clv\<close>.
\<close>

definition calculate_clv ::
  "(rat list \<Rightarrow> nat list) \<Rightarrow> 'a transaction_scheme list \<Rightarrow> error + clv_row list" where
  "calculate_clv argsort df =
     (let groups = groupby CustomerID df;
          dt = column_dtype (map TotalPrice df)
      in if list_ex (\<lambda>(c, g). Timedelta_max
                                 < Max (set (map InvoiceDate g)) - Min (set (map InvoiceDate g)))
                    groups
         then Inl OverflowError
         else Inr (sort_values_descending argsort clv
                     (map (\<lambda>(c, g). clv_record dt c g) groups)))"

text \<open>
  Line 103: \<open>df.groupby('Description')['Quantity'].sum()\<close> is a Series indexed by the
  description, in ascending order of the description, each sum wrapping around in
  int64; it is sorted descending and cut by \<open>head(top_n)\<close>, which for a negative
  \<open>top_n\<close> drops that many entries from the end. \<open>top_n\<close> is \<open>None\<close> when the caller
  leaves it out, and is then 10.
\<close>

definition quantity_by_description :: "'a transaction_scheme list \<Rightarrow> (string \<times> int) list" where
  "quantity_by_description df =
     map (\<lambda>(d, g). (d, wrap_int64 (sum_list (map Quantity g))))
         (groupby (\<lambda>r. Some (Description r)) df)"

definition head :: "int \<Rightarrow> 'a list \<Rightarrow> 'a list" where
  "head n xs = (if 0 \<le> n then take (nat n) xs else take (length xs - nat (- n)) xs)"

definition get_top_products ::
  "(int list \<Rightarrow> nat list) \<Rightarrow> 'a transaction_scheme list \<Rightarrow> int option \<Rightarrow> (string \<times> int) list" where
  "get_top_products argsort df top_n =
     head (case top_n of None \<Rightarrow> 10 | Some n \<Rightarrow> n)
          (sort_values_descending argsort snd (quantity_by_description df))"

section \<open>data_processing.py: clean_data\<close>

text \<open>
  The frame is passed by reference. A store maps a reference to the rows of the frame it
  names, so that an in-place change is seen through every variable holding the
  reference.
\<close>

type_synonym 'a store = "ref \<Rightarrow> 'a transaction_scheme list"

text \<open>
  \<open>drop_duplicates\<close> keeps the first of every set of equal rows (\<open>keep='first'\<close>), a
  missing value being equal to a missing value. The rows seen so far are carried along.
\<close>

fun drop_seen :: "'a list \<Rightarrow> 'a list \<Rightarrow> 'a list" where
  "drop_seen seen [] = []"
| "drop_seen seen (x # xs) =
     (if x \<in> set seen then drop_seen seen xs else x # drop_seen (x # seen) xs)"

definition drop_duplicates :: "'a list \<Rightarrow> 'a list" where
  "drop_duplicates xs = drop_seen [] xs"

definition dropna_CustomerID :: "'a transaction_scheme list \<Rightarrow> 'a transaction_scheme list" where
  "dropna_CustomerID xs = filter (\<lambda>r. CustomerID r \<noteq> None) xs"

text \<open>
  Both calls pass \<open>inplace=True\<close>: each replaces the rows stored under \<open>df\<close>. The function
  returns \<open>df\<close> itself.
\<close>

definition clean_data :: "ref \<Rightarrow> 'a store \<Rightarrow> ref \<times> 'a store" where
  "clean_data df h =
     (let h1 = h(df := dropna_CustomerID (h df));
          h2 = h1(df := drop_duplicates (h1 df))
      in (df, h2))"

section \<open>data_pipeline.py\<close>

text \<open>
  The world the driver acts on: the CSV files by path (\<open>None\<close>: no such file), the log
  file, the statements executed against the database in order, and the charts saved.
\<close>

record sales_row =
  date :: "string option"
  product_id :: string
  quantity :: "rat option"
  revenue :: "rat option"

datatype log_record =
  INFO string
| ERROR string
| INFO_top_products "(string \<times> rat) list"

datatype sink_op =
  Connect
| DropTableIfExists string
| Append string "sales_row list"

record world =
  files :: "string \<Rightarrow> sales_row list option"
  pipeline_log :: "log_record list"
  sink :: "sink_op list"
  charts :: "(string \<times> (string \<times> rat) list) list"

definition logging :: "log_record \<Rightarrow> world \<Rightarrow> world" where
  "logging entry w = w\<lparr>pipeline_log := pipeline_log w @ [entry]\<rparr>"

definition execute :: "sink_op \<Rightarrow> world \<Rightarrow> world" where
  "execute op w = w\<lparr>sink := sink w @ [op]\<rparr>"

text \<open>
  The chunks of the rows of a file. The model of a file that exists covers a file with
  at least one data row; what the iterator yields for a file that holds the header
  alone is not modelled.
\<close>

function chunks :: "nat \<Rightarrow> 'a list \<Rightarrow> 'a list list" where
  "chunks n xs = (if n = 0 \<or> xs = [] then [] else take n xs # chunks n (drop n xs))"
  by pat_completeness auto
termination
  by (relation "measure (\<lambda>(n, xs). length xs)") auto

declare chunks.simps [simp del]

text \<open>
  \<open>pd.read_csv(file_path, chunksize=chunk_size)\<close> checks the chunk size (ValueError when
  it is below 1) and opens the file when it is called, so a missing file raises
  FileNotFoundError there and not when the chunks are read.
\<close>

definition read_csv :: "string \<Rightarrow> nat \<Rightarrow> world \<Rightarrow> error + sales_row list list" where
  "read_csv file_path chunksize w =
     (if chunksize < 1 then Inl ValueError
      else case files w file_path of
             None \<Rightarrow> Inl FileNotFoundError
           | Some rows \<Rightarrow> Inr (chunks chunksize rows))"

text \<open>
  \<open>read_csv_in_chunks\<close> catches FileNotFoundError alone: it logs the error and returns
  \<open>None\<close>. Any other exception leaves the function, and \<open>main\<close>, which has no handler.
\<close>

definition read_csv_in_chunks ::
  "string \<Rightarrow> nat \<Rightarrow> world \<Rightarrow> (error + sales_row list list option) \<times> world" where
  "read_csv_in_chunks file_path chunk_size w =
     (let w1 = logging (INFO (''Reading data from '' @ file_path @ '' in chunks of ''
                              @ digits chunk_size @ ''...'')) w
      in case read_csv file_path chunk_size w1 of
           Inr chunk_list \<Rightarrow> (Inr (Some chunk_list), w1)
         | Inl FileNotFoundError \<Rightarrow>
             (Inr None, logging (ERROR (''File not found: '' @ file_path)) w1)
         | Inl e \<Rightarrow> (Inl e, w1))"

definition pipeline_clean_data :: "sales_row list \<Rightarrow> world \<Rightarrow> sales_row list \<times> world" where
  "pipeline_clean_data df w =
     (let w1 = logging (INFO ''Cleaning a chunk of data...'') w;
          kept = filter (\<lambda>r. date r \<noteq> None) df;
          filled = map (\<lambda>r. r\<lparr>quantity := Some (case quantity r of None \<Rightarrow> 0 | Some q \<Rightarrow> q),
                                revenue := Some (case revenue r of None \<Rightarrow> 0 | Some v \<Rightarrow> v)\<rparr>) kept
      in (filled, logging (INFO ''Chunk cleaning complete.'') w1))"

text \<open>
  The chart of the insights. Plotting a series without entries raises in the code; the
  model records the chart and covers the series with at least one product.
\<close>

definition create_visualisation :: "(string \<times> rat) list \<Rightarrow> string \<Rightarrow> world \<Rightarrow> world" where
  "create_visualisation insights output_path w =
     (let w1 = logging (INFO ''Creating visualisation...'') w;
          w2 = w1\<lparr>charts := charts w1 @ [(output_path, insights)]\<rparr>
      in logging (INFO (''Visualisation saved to '' @ output_path)) w2)"

definition revenue_of :: "sales_row \<Rightarrow> rat" where
  "revenue_of r = (case revenue r of None \<Rightarrow> 0 | Some v \<Rightarrow> v)"

definition lookup0 :: "(string \<times> rat) list \<Rightarrow> string \<Rightarrow> rat" where
  "lookup0 series k = (case map_of series k of None \<Rightarrow> 0 | Some v \<Rightarrow> v)"

text \<open>\<open>a.add(b, fill_value=0)\<close>: the union of both indexes, a missing side counting 0.\<close>

definition series_add :: "(string \<times> rat) list \<Rightarrow> (string \<times> rat) list \<Rightarrow> (string \<times> rat) list" where
  "series_add a b =
     map (\<lambda>k. (k, lookup0 a k + lookup0 b k)) (sort (remdups (map fst a @ map fst b)))"

text \<open>\<open>nlargest(n)\<close> keeps the first occurrences among equal values (\<open>keep='first'\<close>).\<close>

definition nlargest :: "nat \<Rightarrow> (string \<times> rat) list \<Rightarrow> (string \<times> rat) list" where
  "nlargest n series = take n (sort_key (\<lambda>(k, v). - v) series)"

definition process_chunk ::
  "sales_row list \<Rightarrow> (string \<times> rat) list \<times> world \<Rightarrow> (string \<times> rat) list \<times> world" where
  "process_chunk chunk acc =
     (let (total_revenue_per_product, w) = acc;
          (cleaned_chunk, w1) = pipeline_clean_data chunk w;
          revenue_per_product =
            map (\<lambda>(p, g). (p, sum_list (map revenue_of g)))
                (groupby (\<lambda>r. Some (product_id r)) cleaned_chunk);
          total = series_add total_revenue_per_product revenue_per_product
      in (total, execute (Append ''sales'' cleaned_chunk) w1))"

definition CSV_FILE :: string where
  "CSV_FILE = ''sales_data.csv''"

definition VISUALISATION_FILE :: string where
  "VISUALISATION_FILE = ''top_10_products.png''"

definition CHUNK_SIZE :: nat where
  "CHUNK_SIZE = 10000"

text \<open>
  \<open>main\<close> returns the world it leaves behind, with the exception it ended on, if any.
\<close>

definition main :: "world \<Rightarrow> error option \<times> world" where
  "main w0 =
     (let w1 = logging (INFO ''Starting data pipeline...'') w0 in
      case read_csv_in_chunks CSV_FILE CHUNK_SIZE w1 of
        (Inl e, w2) \<Rightarrow> (Some e, w2)
      | (Inr chunk_iterator, w2) \<Rightarrow>
          let w3 = (case chunk_iterator of
                      None \<Rightarrow> w2
                    | Some chunk_list \<Rightarrow>
                        let w4 = execute (DropTableIfExists ''sales'') (execute Connect w2);
                            w5 = logging (INFO ''Processing chunks...'') w4;
                            (total_revenue_per_product, w6) =
                              fold process_chunk chunk_list ([], w5);
                            w7 = logging (INFO ''All chunks processed.'') w6;
                            w8 = logging (INFO ''Generating final insights...'') w7;
                            top_10_products = nlargest 10 total_revenue_per_product;
                            w9 = logging (INFO_top_products top_10_products) w8;
                            w10 = create_visualisation top_10_products VISUALISATION_FILE w9
                        in logging (INFO ''Data stored successfully in sales.db.'') w10)
          in (None, logging (INFO ''Data pipeline finished.'') w3))"

section \<open>Auxiliary notions for the proofs\<close>

text \<open>
  The order \<open>rank(method='first')\<close> ranks by: smaller value first, and among equal values
  the earlier position first.
\<close>

definition before :: "'v::linorder list \<Rightarrow> nat \<Rightarrow> nat \<Rightarrow> bool" where
  "before col j i \<longleftrightarrow> col ! j < col ! i \<or> (col ! j = col ! i \<and> j < i)"

definition sorted_ranks :: "nat \<Rightarrow> rat list" where
  "sorted_ranks n = map of_nat [1..<Suc n]"

text \<open>The five bin edges of the ranks 1 to n, and the bin a rank falls into.\<close>

definition edges :: "nat \<Rightarrow> rat list" where
  "edges n = map (\<lambda>q. 1 + q * of_nat (n - 1)) [0, 1/4, 1/2, 3/4, 1]"

definition quartile :: "nat \<Rightarrow> rat \<Rightarrow> nat" where
  "quartile n r = (if r = edges n ! 0 then 1 else searchsorted_left (edges n) r)"

text \<open>What \<open>score_column\<close> returns, and the frame \<open>calculate_rfm\<close> returns, in closed form.\<close>

definition score_list :: "rat list \<Rightarrow> int list \<Rightarrow> int list" where
  "score_list col labels =
     (if 2 \<le> length col
      then map (\<lambda>r. labels ! (quartile (length col) r - 1)) (rank_first col)
      else replicate (length col) 2)"

definition aggregate_rows :: "'a transaction_scheme list \<Rightarrow> customer_aggregate list" where
  "aggregate_rows df =
     (case series_max (map InvoiceDate df) of
        None \<Rightarrow> []
      | Some latest \<Rightarrow>
          map (\<lambda>(c, g).
                 \<lparr>customer = c,
                  Recency = timedelta_days (latest + day_ns - Max (set (map InvoiceDate g))),
                  Frequency = int (length (remdups (map InvoiceNo g))),
                  MonetaryValue = price_sum (column_dtype (map TotalPrice df)) (map TotalPrice g)\<rparr>)
              (groupby CustomerID df))"

text \<open>
  The frames on which neither the snapshot date nor a recency leaves the range of
  Timestamp and Timedelta.
\<close>

definition dates_representable :: "'a transaction_scheme list \<Rightarrow> bool" where
  "dates_representable df =
     (case series_max (map InvoiceDate df) of
        None \<Rightarrow> True
      | Some latest \<Rightarrow>
          latest + day_ns \<le> Timestamp_max \<and>
          list_all (\<lambda>(c, g). latest + day_ns - Max (set (map InvoiceDate g)) \<le> Timedelta_max)
                   (groupby CustomerID df))"

definition rfm_rows :: "'a transaction_scheme list \<Rightarrow> rfm_row list" where
  "rfm_rows df =
     (let rfm = aggregate_rows df;
          row_dtype = common_dtype [int64, int64, column_dtype (map TotalPrice df),
                                    int64, int64, int64]
      in map (\<lambda>(a, r, f, m).
                \<lparr>R = r, F = f, M = m, aggregate = a,
                 RFM_Segment = str (row_scalar row_dtype r) @ str (row_scalar row_dtype f)
                               @ str (row_scalar row_dtype m),
                 RFM_Score = r + f + m\<rparr>)
             (zip rfm
               (zip (score_list (map (\<lambda>a. of_int (Recency a)) rfm) [4, 3, 2, 1])
                 (zip (score_list (map (\<lambda>a. of_int (Frequency a)) rfm) [1, 2, 3, 4])
                      (score_list (map MonetaryValue rfm) [1, 2, 3, 4])))))"

text \<open>
  The frame object that holds the rows \<open>calculate_rfm\<close> returns, and the frame without
  rows.
\<close>

definition to_frame :: "dtype \<Rightarrow> rfm_row list \<Rightarrow> frame" where
  "to_frame dt rs =
     \<lparr>frame_index = map (\<lambda>row. customer (aggregate row)) rs,
      frame_columns =
        [(''Recency'', int64_column (map (\<lambda>row. Recency (aggregate row)) rs)),
         (''Frequency'', int64_column (map (\<lambda>row. Frequency (aggregate row)) rs)),
         (''MonetaryValue'', price_column dt (map (\<lambda>row. MonetaryValue (aggregate row)) rs)),
         (''R'', int64_column (map R rs)),
         (''F'', int64_column (map F rs)),
         (''M'', int64_column (map M rs)),
         (''RFM_Score'', int64_column (map RFM_Score rs))],
      text_columns = [(''RFM_Segment'', map RFM_Segment rs)]\<rparr>"

definition empty_frame :: frame where
  "empty_frame =
     \<lparr>frame_index = [],
      frame_columns =
        [(''Recency'', int64_column []),
         (''Frequency'', int64_column []),
         (''MonetaryValue'', int64_column []),
         (''R'', int64_column []),
         (''F'', int64_column []),
         (''M'', int64_column []),
         (''RFM_Score'', int64_column [])],
      text_columns = [(''RFM_Segment'', [])]\<rparr>"

text \<open>
  The frames on which line 72 of \<open>calculate_clv\<close> does not overflow: no customer's
  purchases are further apart than the largest Timedelta. \<open>purchases_of\<close> are the rows
  of one customer.
\<close>

definition spans_representable :: "'a transaction_scheme list \<Rightarrow> bool" where
  "spans_representable df \<longleftrightarrow>
     (\<forall>a \<in> set df. \<forall>b \<in> set df.
        CustomerID a \<noteq> None \<and> CustomerID a = CustomerID b \<longrightarrow>
        InvoiceDate b - InvoiceDate a \<le> Timedelta_max)"

definition purchases_of :: "'a transaction_scheme list \<Rightarrow> int \<Rightarrow> 'a transaction_scheme list" where
  "purchases_of df c = filter (\<lambda>r. CustomerID r = Some c) df"

text \<open>
  One function that meets \<open>argsort_contract\<close>: the stable argsort.
\<close>

definition stable_argsort :: "'v::linorder list \<Rightarrow> nat list" where
  "stable_argsort xs = sort_key (\<lambda>i. xs ! i) [0..<length xs]"

text \<open>Example frames. \<open>tx\<close> builds a row whose invoice date is midnight of the given day.\<close>

definition tx :: "int \<Rightarrow> string \<Rightarrow> string \<Rightarrow> int \<Rightarrow> int \<Rightarrow> cell \<Rightarrow> transaction" where
  "tx c iv d qty day p =
     \<lparr>InvoiceNo = iv, Description = d, Quantity = qty, InvoiceDate = day * day_ns,
      CustomerID = Some c, TotalPrice = p\<rparr>"

definition float_priced_df :: "transaction list" where
  "float_priced_df =
     [tx 17850 ''536365'' ''MUG'' 6 1 (FloatCell (153 / 10)),
      tx 13047 ''536367'' ''PEN'' 2 3 (FloatCell (51 / 10))]"

definition same_day_df :: "transaction list" where
  "same_day_df =
     [tx 1 ''A1'' ''MUG'' 1 7 (IntCell 10),
      tx 2 ''A2'' ''MUG'' 1 7 (IntCell 20)]"

definition one_customer_df :: "transaction list" where
  "one_customer_df = [tx 1 ''A1'' ''MUG'' 1 7 (IntCell 10)]"

definition four_customers_df :: "transaction list" where
  "four_customers_df =
     [tx 1 ''A1'' ''MUG'' 1 7 (IntCell 10),
      tx 2 ''A2'' ''MUG'' 1 7 (IntCell 20),
      tx 3 ''A3'' ''MUG'' 1 7 (IntCell 30),
      tx 4 ''A4'' ''MUG'' 1 7 (IntCell 40)]"

definition four_customers_rfm :: "rfm_row list" where
  "four_customers_rfm =
     [\<lparr>R = 4, F = 1, M = 1,
       aggregate = \<lparr>customer = 1, Recency = 1, Frequency = 1, MonetaryValue = 10\<rparr>,
       RFM_Segment = ''411'', RFM_Score = 6\<rparr>,
      \<lparr>R = 3, F = 2, M = 2,
       aggregate = \<lparr>customer = 2, Recency = 1, Frequency = 1, MonetaryValue = 20\<rparr>,
       RFM_Segment = ''322'', RFM_Score = 7\<rparr>,
      \<lparr>R = 2, F = 3, M = 3,
       aggregate = \<lparr>customer = 3, Recency = 1, Frequency = 1, MonetaryValue = 30\<rparr>,
       RFM_Segment = ''233'', RFM_Score = 8\<rparr>,
      \<lparr>R = 1, F = 4, M = 4,
       aggregate = \<lparr>customer = 4, Recency = 1, Frequency = 1, MonetaryValue = 40\<rparr>,
       RFM_Segment = ''144'', RFM_Score = 9\<rparr>]"

definition three_recencies_df :: "transaction list" where
  "three_recencies_df =
     [tx 1 ''A1'' ''MUG'' 1 1 (IntCell 10),
      tx 2 ''A2'' ''MUG'' 1 5 (IntCell 20),
      tx 3 ''A3'' ''MUG'' 1 9 (IntCell 30)]"

definition three_recencies_rfm :: "rfm_row list" where
  "three_recencies_rfm =
     [\<lparr>R = 1, F = 1, M = 1,
       aggregate = \<lparr>customer = 1, Recency = 9, Frequency = 1, MonetaryValue = 10\<rparr>,
       RFM_Segment = ''111'', RFM_Score = 3\<rparr>,
      \<lparr>R = 3, F = 2, M = 2,
       aggregate = \<lparr>customer = 2, Recency = 5, Frequency = 1, MonetaryValue = 20\<rparr>,
       RFM_Segment = ''322'', RFM_Score = 7\<rparr>,
      \<lparr>R = 4, F = 4, M = 4,
       aggregate = \<lparr>customer = 3, Recency = 1, Frequency = 1, MonetaryValue = 30\<rparr>,
       RFM_Segment = ''444'', RFM_Score = 12\<rparr>]"

definition latest_day_df :: "transaction list" where
  "latest_day_df = [tx 1 ''A1'' ''MUG'' 1 106751 (IntCell 10)]"

definition three_recencies_frame :: frame where
  "three_recencies_frame =
     \<lparr>frame_index = [1, 2, 3],
      frame_columns =
        [(''Recency'', int64_column [9, 5, 1]),
         (''Frequency'', int64_column [1, 1, 1]),
         (''MonetaryValue'', int64_column [10, 20, 30]),
         (''R'', int64_column [1, 3, 4]),
         (''F'', int64_column [1, 2, 4]),
         (''M'', int64_column [1, 2, 4]),
         (''RFM_Score'', int64_column [3, 7, 12])],
      text_columns = [(''RFM_Segment'', [''111'', ''322'', ''444''])]\<rparr>"

definition example_heap :: "unit heap" where
  "example_heap = [Frame empty_frame, Transactions three_recencies_df]"

definition single_day_df :: "transaction list" where
  "single_day_df =
     [tx 1 ''B1'' ''MUG'' 1 1 (FloatCell (5 / 2)),
      tx 2 ''A1'' ''MUG'' 2 7 (FloatCell 5),
      tx 1 ''B2'' ''MUG'' 3 11 (FloatCell (15 / 2)),
      tx 2 ''A2'' ''PEN'' 1 7 (FloatCell 10)]"

definition far_apart_df :: "transaction list" where
  "far_apart_df =
     [tx 1 ''A1'' ''MUG'' 1 (- 100000) (FloatCell 5),
      tx 1 ''A2'' ''MUG'' 1 100000 (FloatCell 5)]"

definition single_day_clv :: "clv_row list" where
  "single_day_clv =
     [\<lparr>clv_customer = 2, total_transactions = 2, total_products = 3, total_revenue = 15,
       first_purchase_date = 7 * day_ns, last_purchase_date = 7 * day_ns,
       purchase_lifespan = 0, avg_order_value = 15 / 2, purchase_frequency = 2, clv = 5475\<rparr>,
      \<lparr>clv_customer = 1, total_transactions = 2, total_products = 4, total_revenue = 10,
       first_purchase_date = 1 * day_ns, last_purchase_date = 11 * day_ns,
       purchase_lifespan = 10, avg_order_value = 5,
       purchase_frequency = 3275345183542179 / 18014398509481984,
       clv = 2918703593732655 / 8796093022208\<rparr>]"

definition raw_store :: "unit store" where
  "raw_store =
     (\<lambda>r. [])(7 :=
       [tx 1 ''A1'' ''MUG'' 1 7 (IntCell 10),
        (tx 0 ''A2'' ''PEN'' 1 7 (IntCell 20))\<lparr>CustomerID := None\<rparr>,
        tx 1 ''A1'' ''MUG'' 1 7 (IntCell 10),
        tx 2 ''A3'' ''PEN'' 2 8 (IntCell 40)])"

definition empty_world :: world where
  "empty_world = \<lparr>files = (\<lambda>path. None), pipeline_log = [], sink = [], charts = []\<rparr>"

definition one_file_world :: world where
  "one_file_world =
     \<lparr>files = (\<lambda>path. if path = ''sales_data.csv''
                       then Some [\<lparr>date = Some ''2024-01-01'', product_id = ''P1'',
                                    quantity = Some 2, revenue = None\<rparr>,
                                  \<lparr>date = None, product_id = ''P2'',
                                    quantity = Some 1, revenue = Some 3\<rparr>]
                       else None),
      pipeline_log = [], sink = [], charts = []\<rparr>"

section \<open>Validation of the input schema\<close>

text \<open>
  C7. For every list of column labels, \<open>validate_data\<close> returns exactly the required
  columns that are absent from it, each once and in the order of the required list; when
  only \<open>Country\<close> is absent the result is \<open>[Country]\<close>, and when all eight are present it
  is the empty list.
\<close>

theorem validate_data_exact_missing:
  "set (validate_data columns) = set required_columns - set columns
   \<and> distinct (validate_data columns)
   \<and> subseq (validate_data columns) required_columns
   \<and> length required_columns = 8
   \<and> (set required_columns - set columns = {''Country''} \<longrightarrow> validate_data columns = [''Country''])
   \<and> (set required_columns \<subseteq> set columns \<longrightarrow> validate_data columns = [])"
proof -
  have d: "distinct required_columns"
    by (simp add: required_columns_def)
  have s: "set (validate_data columns) = set required_columns - set columns"
    by (auto simp: validate_data_def)
  have c: "validate_data columns = [''Country'']"
    if h: "set required_columns - set columns = {''Country''}"
  proof -
    have m: "\<And>col. col \<in> set required_columns \<Longrightarrow> (col \<notin> set columns) = (col = ''Country'')"
      using h by blast
    have "validate_data columns = filter (\<lambda>col. col = ''Country'') required_columns"
      unfolding validate_data_def
      by (rule filter_cong) (simp_all add: m)
    then show ?thesis
      by (simp add: required_columns_def)
  qed
  have e: "validate_data columns = []" if "set required_columns \<subseteq> set columns"
    using that by (auto simp: validate_data_def filter_empty_conv)
  have q: "subseq (validate_data columns) required_columns"
    by (simp add: validate_data_def)
  have l: "length required_columns = 8"
    by (simp add: required_columns_def)
  have "distinct (validate_data columns)"
    using d by (simp add: validate_data_def)
  then show ?thesis
    using s c e q l by blast
qed

theorem validate_data_exact_missing_witness:
  "validate_data [''InvoiceNo'', ''StockCode'', ''Description'', ''Quantity'',
                  ''InvoiceDate'', ''UnitPrice'', ''CustomerID''] = [''Country'']
   \<and> validate_data required_columns = []"
proof -
  let ?cols = "[''InvoiceNo'', ''StockCode'', ''Description'', ''Quantity'',
                ''InvoiceDate'', ''UnitPrice'', ''CustomerID'']"
  have h: "set required_columns - set ?cols = {''Country''}"
    by (auto simp: required_columns_def)
  have "validate_data ?cols = [''Country'']"
    using validate_data_exact_missing [of ?cols] h by blast
  moreover have "validate_data required_columns = []"
    using validate_data_exact_missing [of required_columns] by blast
  ultimately show ?thesis by simp
qed

section \<open>Segment labels\<close>

text \<open>
  C3. For every triple of scores, \<open>get_rfm_segment_meaning\<close> returns the label of the
  first of the six conditions, taken in the order Best Customers, Loyal Customers, Big
  Spenders, At Risk, Needs Attention, Others, that the scores satisfy; a customer with
  R = 4, F = 4, M = 1 is labelled Loyal Customers.
\<close>

theorem segment_meaning_first_match:
  "first_match spec_segment_rules (R row, F row, M row) = Some (get_rfm_segment_meaning row)
   \<and> map snd spec_segment_rules =
       [''Best Customers'', ''Loyal Customers'', ''Big Spenders'',
        ''At Risk'', ''Needs Attention'', ''Others'']
   \<and> get_rfm_segment_meaning \<lparr>R = 4, F = 4, M = 1\<rparr> = ''Loyal Customers''"
  by (simp add: spec_segment_rules_def get_rfm_segment_meaning_def)

section \<open>Ranks, bin edges and scores\<close>

lemma length_rank_first: "length (rank_first col) = length col"
  by (simp add: rank_first_def)

lemma length_filter_less:
  assumes "\<And>x. x \<in> set xs \<Longrightarrow> P x \<Longrightarrow> Q x" and "y \<in> set xs" and "Q y" and "\<not> P y"
  shows "length (filter P xs) < length (filter Q xs)"
  using assms
proof (induction xs)
  case Nil
  then show ?case by simp
next
  case (Cons a xs)
  have le: "length (filter P xs) \<le> length (filter Q xs)"
  proof -
    have "filter P xs = filter P (filter Q xs)"
      using Cons.prems(1) by (auto simp: filter_filter intro!: filter_cong)
    then show ?thesis
      by (metis length_filter_le)
  qed
  show ?case
  proof (cases "y = a")
    case True
    then show ?thesis using le Cons.prems by simp
  next
    case False
    then have "y \<in> set xs" using Cons.prems by simp
    then have "length (filter P xs) < length (filter Q xs)"
      using Cons.IH Cons.prems by simp
    then show ?thesis using Cons.prems(1) by auto
  qed
qed

lemma rank_first_nth:
  "i < length col \<Longrightarrow>
   rank_first col ! i = of_nat (Suc (length (filter (\<lambda>j. before col j i) [0..<length col])))"
  by (simp add: rank_first_def before_def)

lemma rank_first_less:
  assumes "i < length col" "k < length col" "before col i k"
  shows "rank_first col ! i < rank_first col ! k"
proof -
  have "length (filter (\<lambda>j. before col j i) [0..<length col])
        < length (filter (\<lambda>j. before col j k) [0..<length col])"
  proof (rule length_filter_less)
    show "before col j k" if "before col j i" for j
      using that assms(3) by (auto simp: before_def)
    show "i \<in> set [0..<length col]" using assms(1) by simp
    show "before col i k" by (rule assms(3))
    show "\<not> before col i i" by (simp add: before_def)
  qed
  then show ?thesis
    using assms by (simp add: rank_first_nth)
qed

lemma before_total: "i \<noteq> k \<Longrightarrow> before col i k \<or> before col k i"
  by (auto simp: before_def)

lemma rank_first_inj:
  assumes "i < length col" "k < length col" "i \<noteq> k"
  shows "rank_first col ! i \<noteq> rank_first col ! k"
  using before_total [OF assms(3), of col] rank_first_less [of i col k] rank_first_less [of k col i] assms
  by fastforce

lemma distinct_rank_first: "distinct (rank_first col)"
  unfolding distinct_conv_nth length_rank_first
  using rank_first_inj by blast

lemma rank_first_range:
  assumes "i < length col"
  shows "\<exists>m. rank_first col ! i = of_nat m \<and> 1 \<le> m \<and> m \<le> length col"
proof -
  let ?c = "length (filter (\<lambda>j. before col j i) [0..<length col])"
  have "?c < length (filter (\<lambda>j. True) [0..<length col])"
    by (rule length_filter_less [where y = i]) (use assms in \<open>auto simp: before_def\<close>)
  then have "Suc ?c \<le> length col" by simp
  then show ?thesis
    using assms by (intro exI [of _ "Suc ?c"]) (simp add: rank_first_nth)
qed

lemma set_rank_first: "set (rank_first col) = of_nat ` {1..length col}"
proof -
  have sub: "set (rank_first col) \<subseteq> of_nat ` {1..length col}"
  proof
    fix r assume "r \<in> set (rank_first col)"
    then obtain i where "i < length col" "r = rank_first col ! i"
      by (auto simp: in_set_conv_nth length_rank_first)
    then show "r \<in> of_nat ` {1..length col}"
      using rank_first_range [of i col] by auto
  qed
  have "card (set (rank_first col)) = length col"
    using distinct_rank_first [of col] by (simp add: distinct_card length_rank_first)
  moreover have "card ((of_nat :: nat \<Rightarrow> rat) ` {1..length col}) = length col"
    by (simp add: card_image)
  ultimately show ?thesis
    using sub by (simp add: card_subset_eq)
qed

lemma length_sorted_ranks: "length (sorted_ranks n) = n"
  by (simp add: sorted_ranks_def del: upt_Suc)

lemma nth_sorted_ranks: "k < n \<Longrightarrow> sorted_ranks n ! k = of_nat (Suc k)"
  by (simp add: sorted_ranks_def del: upt_Suc)

lemma sort_rank_first: "sort (rank_first col) = sorted_ranks (length col)"
  unfolding sorted_ranks_def
proof (rule sorted_distinct_set_unique)
  show "sorted (sort (rank_first col))" by simp
  show "distinct (sort (rank_first col))" by (simp add: distinct_rank_first)
  show "sorted (map (of_nat :: nat \<Rightarrow> rat) [1..<Suc (length col)])"
    by (simp add: sorted_map del: upt_Suc)
  show "distinct (map (of_nat :: nat \<Rightarrow> rat) [1..<Suc (length col)])"
    by (simp add: distinct_map inj_on_def del: upt_Suc)
  show "set (sort (rank_first col)) = set (map (of_nat :: nat \<Rightarrow> rat) [1..<Suc (length col)])"
    using set_rank_first [of col] by (simp add: atLeastLessThanSuc_atLeastAtMost del: upt_Suc)
qed

lemma quantile_ranks:
  assumes "0 \<le> q" "q \<le> 1" "1 \<le> n"
  shows "quantile (sorted_ranks n) q = 1 + q * of_nat (n - 1)"
proof -
  define idx where "idx = q * of_nat (n - 1)"
  define lo where "lo = nat \<lfloor>idx\<rfloor>"
  have nn: "0 \<le> idx" using assms by (simp add: idx_def)
  have ub: "idx \<le> of_nat (n - 1)"
    unfolding idx_def using assms(1,2) by (simp add: mult_left_le_one_le)
  have fl: "of_int \<lfloor>idx\<rfloor> = (of_nat lo :: rat)"
    using nn by (simp add: lo_def)
  have lo_idx: "of_nat lo \<le> idx"
    using fl of_int_floor_le [of idx] by simp
  have lo_le: "lo \<le> n - 1"
  proof -
    have "(of_nat lo :: rat) \<le> of_nat (n - 1)" using lo_idx ub by simp
    then show ?thesis by (simp only: of_nat_le_iff)
  qed
  have q: "quantile (sorted_ranks n) q =
           (if idx = of_nat lo then sorted_ranks n ! lo
            else sorted_ranks n ! lo
                 + (sorted_ranks n ! (lo + 1) - sorted_ranks n ! lo) * (idx - of_nat lo))"
    unfolding quantile_def Let_def length_sorted_ranks idx_def [symmetric]
      lo_def [symmetric] fl
    by (rule refl)
  show ?thesis
  proof (cases "idx = of_nat lo")
    case True
    have "lo < n" using lo_le assms(3) by linarith
    then show ?thesis
      unfolding q idx_def [symmetric] using True by (simp add: nth_sorted_ranks)
  next
    case False
    have "lo \<noteq> n - 1"
      using False lo_idx ub by auto
    then have lt: "lo + 1 < n" using lo_le assms(3) by linarith
    then have lt': "lo < n" by simp
    show ?thesis
      unfolding q nth_sorted_ranks [OF lt] nth_sorted_ranks [OF lt'] idx_def [symmetric]
      using False by simp
  qed
qed

lemma bins_rank_first:
  assumes "col \<noteq> []"
  shows "map (quantile (sort (rank_first col))) [0, 1/4, 1/2, 3/4, 1] = edges (length col)"
proof -
  have n: "1 \<le> length col" using assms by (simp add: Suc_le_eq)
  have e: "quantile (sorted_ranks (length col)) q = 1 + q * of_nat (length col - 1)"
    if "q \<in> set [0, 1/4, 1/2, 3/4, 1]" for q
  proof -
    have "0 \<le> q" "q \<le> 1" using that by auto
    then show ?thesis using n by (rule quantile_ranks)
  qed
  show ?thesis
    unfolding sort_rank_first edges_def
    by (rule map_cong [OF refl]) (rule e)
qed

lemma distinct_scaled:
  "distinct (map (\<lambda>q. 1 + q * m) [0, 1/4, 1/2, 3/4, 1 :: rat]) \<longleftrightarrow> m \<noteq> 0"
  by auto

lemma distinct_edges: "distinct (edges n) \<longleftrightarrow> 2 \<le> n"
proof -
  have "(of_nat (n - 1) :: rat) \<noteq> 0 \<longleftrightarrow> 2 \<le> n"
    by (simp only: of_nat_eq_0_iff) linarith
  then show ?thesis
    unfolding edges_def distinct_scaled .
qed

lemma quartile_range:
  assumes "1 \<le> r" "r \<le> of_nat n" "1 \<le> n"
  shows "1 \<le> quartile n r \<and> quartile n r \<le> 4"
proof (cases "r = 1")
  case True
  then show ?thesis by (simp add: quartile_def edges_def)
next
  case False
  then have "1 < r" using assms by simp
  moreover have "\<not> 1 + of_nat (n - 1) < r"
    using assms by (simp add: of_nat_diff)
  ultimately show ?thesis
    using False by (simp add: quartile_def edges_def searchsorted_left_def)
qed

lemma quartile_mono:
  assumes "1 \<le> r" "r \<le> s"
  shows "quartile n r \<le> quartile n s"
proof -
  have le: "searchsorted_left (edges n) r \<le> searchsorted_left (edges n) s"
  proof -
    have "filter (\<lambda>b. b < r) (edges n) = filter (\<lambda>b. b < r) (filter (\<lambda>b. b < s) (edges n))"
      using assms by (auto intro!: filter_cong)
    then show ?thesis
      unfolding searchsorted_left_def by (metis length_filter_le)
  qed
  show ?thesis
  proof (cases "r = 1")
    case True
    show ?thesis
    proof (cases "s = 1")
      case True
      then show ?thesis using \<open>r = 1\<close> by simp
    next
      case False
      then have "1 < s" using assms True by simp
      then show ?thesis
        using True False by (simp add: quartile_def edges_def searchsorted_left_def)
    qed
  next
    case False
    then have "s \<noteq> 1" using assms by simp
    then show ?thesis using False le by (simp add: quartile_def edges_def)
  qed
qed

lemma qcut_rank_first:
  assumes "2 \<le> length col" "length labels = 4"
  shows "qcut (rank_first col) labels =
         Inr (map (\<lambda>r. labels ! (quartile (length col) r - 1)) (rank_first col))"
proof -
  let ?n = "length col"
  have ne: "col \<noteq> []" "rank_first col \<noteq> []"
    using assms(1) length_rank_first [of col] by auto
  have bins: "map (quantile (sort (rank_first col))) [0, 1/4, 1/2, 3/4, 1] = edges ?n"
    by (rule bins_rank_first [OF ne(1)])
  have d: "distinct (edges ?n)" using assms(1) by (simp add: distinct_edges)
  have len: "length (edges ?n) = 5" by (simp add: edges_def)
  have ids: "map (\<lambda>v. if v = edges ?n ! 0 then 1 else searchsorted_left (edges ?n) v) (rank_first col)
             = map (quartile ?n) (rank_first col)"
    by (simp add: quartile_def)
  have ok: "\<not> list_ex (\<lambda>i. i = 0 \<or> i = 5) (map (quartile ?n) (rank_first col))"
  proof -
    have "1 \<le> quartile ?n r \<and> quartile ?n r \<le> 4" if "r \<in> set (rank_first col)" for r
    proof -
      have "r \<in> of_nat ` {1..?n}"
        using that set_rank_first [of col] by simp
      then obtain m where "r = of_nat m" "1 \<le> m" "m \<le> ?n"
        by auto
      then show ?thesis
        using quartile_range [of r ?n] assms(1) by simp
    qed
    then show ?thesis
      by (fastforce simp: list_ex_iff)
  qed
  show ?thesis
    unfolding qcut_def Let_def bins ids
    using ne d len ok assms(2) by (simp add: comp_def)
qed

lemma qcut_small:
  assumes "length col \<le> 1"
  shows "qcut (rank_first col) labels = Inl ValueError"
proof (cases "col = []")
  case True
  then show ?thesis by (simp add: qcut_def rank_first_def)
next
  case False
  then have bins: "map (quantile (sort (rank_first col))) [0, 1/4, 1/2, 3/4, 1] = edges (length col)"
    by (rule bins_rank_first)
  have "\<not> distinct (edges (length col))"
    using assms by (simp add: distinct_edges)
  then show ?thesis
    unfolding qcut_def Let_def bins by simp
qed

lemma score_column_eq:
  assumes "length labels = 4"
  shows "score_column col labels =
         Inr (if 2 \<le> length col
              then map (\<lambda>r. labels ! (quartile (length col) r - 1)) (rank_first col)
              else replicate (length col) 2)"
proof (cases "2 \<le> length col")
  case True
  then show ?thesis
    by (simp add: score_column_def qcut_rank_first [OF True assms])
next
  case False
  then have "length col \<le> 1" by simp
  then show ?thesis
    using False by (simp add: score_column_def qcut_small)
qed

lemma score_column_score_list:
  "length labels = 4 \<Longrightarrow> score_column col labels = Inr (score_list col labels)"
  by (simp add: score_column_eq score_list_def)

lemma length_score_list: "length (score_list col labels) = length col"
  by (simp add: score_list_def length_rank_first)

lemma rfm_aggregate_eq:
  "rfm_aggregate df =
     (if dates_representable df then Inr (aggregate_rows df) else Inl OutOfBoundsDatetime)"
proof (cases "series_max (map InvoiceDate df)")
  case None
  then show ?thesis
    by (simp add: rfm_aggregate_def dates_representable_def aggregate_rows_def)
next
  case (Some latest)
  have "list_ex (\<lambda>(c, g). Timedelta_max < latest + day_ns - Max (set (map InvoiceDate g)))
          (groupby CustomerID df)
        \<longleftrightarrow> \<not> list_all (\<lambda>(c, g). latest + day_ns - Max (set (map InvoiceDate g)) \<le> Timedelta_max)
              (groupby CustomerID df)"
    by (simp add: list_ex_iff list_all_iff case_prod_unfold not_le)
  then show ?thesis
    using Some
    by (simp add: rfm_aggregate_def dates_representable_def aggregate_rows_def Let_def not_less)
qed

lemma calculate_rfm_eq:
  "calculate_rfm df =
     (if dates_representable df then Inr (rfm_rows df) else Inl OutOfBoundsDatetime)"
  by (simp add: calculate_rfm_def rfm_aggregate_eq rfm_rows_def score_column_score_list Let_def)

lemma calculate_rfm_rows: "calculate_rfm df = Inr rfm \<Longrightarrow> rfm = rfm_rows df"
  by (simp add: calculate_rfm_eq split: if_splits)

lemma length_rfm_rows: "length (rfm_rows df) = length (aggregate_rows df)"
  by (simp add: rfm_rows_def Let_def length_score_list)

lemma rfm_rows_nth:
  assumes "i < length (aggregate_rows df)"
  shows "aggregate (rfm_rows df ! i) = aggregate_rows df ! i"
    and "R (rfm_rows df ! i) = score_list (map (\<lambda>a. of_int (Recency a)) (aggregate_rows df)) [4, 3, 2, 1] ! i"
    and "F (rfm_rows df ! i) = score_list (map (\<lambda>a. of_int (Frequency a)) (aggregate_rows df)) [1, 2, 3, 4] ! i"
    and "M (rfm_rows df ! i) = score_list (map MonetaryValue (aggregate_rows df)) [1, 2, 3, 4] ! i"
  using assms by (simp_all add: rfm_rows_def Let_def length_score_list)

lemma ascending_label:
  "1 \<le> k \<Longrightarrow> k \<le> 4 \<Longrightarrow> [1, 2, 3, 4 :: int] ! (k - Suc 0) = int k"
proof -
  assume "1 \<le> k" "k \<le> 4"
  then have "k = 1 \<or> k = 2 \<or> k = 3 \<or> k = 4" by linarith
  then show ?thesis by auto
qed

lemma rank_first_bounds:
  assumes "i < length col"
  shows "1 \<le> rank_first col ! i" and "rank_first col ! i \<le> of_nat (length col)"
proof -
  obtain m where m: "rank_first col ! i = of_nat m" "1 \<le> m" "m \<le> length col"
    using rank_first_range [OF assms] by blast
  show "1 \<le> rank_first col ! i" using m by simp
  show "rank_first col ! i \<le> of_nat (length col)" using m by simp
qed

lemma ascending_score_mono:
  assumes "i < length col" "k < length col" "col ! i < col ! k"
  shows "score_list col [1, 2, 3, 4] ! i \<le> score_list col [1, 2, 3, 4] ! k"
proof -
  let ?n = "length col"
  have n2: "2 \<le> ?n" using assms by (cases "i = k") auto
  have lt: "rank_first col ! i < rank_first col ! k"
    using assms by (intro rank_first_less) (simp_all add: before_def)
  have qi: "1 \<le> quartile ?n (rank_first col ! i) \<and> quartile ?n (rank_first col ! i) \<le> 4"
    using rank_first_bounds [OF assms(1)] n2 by (intro quartile_range) simp_all
  have qk: "1 \<le> quartile ?n (rank_first col ! k) \<and> quartile ?n (rank_first col ! k) \<le> 4"
    using rank_first_bounds [OF assms(2)] n2 by (intro quartile_range) simp_all
  have "quartile ?n (rank_first col ! i) \<le> quartile ?n (rank_first col ! k)"
    using rank_first_bounds(1) [OF assms(1)] lt by (intro quartile_mono) simp_all
  then show ?thesis
    using n2 assms(1,2) qi qk
    by (simp add: score_list_def length_rank_first ascending_label)
qed

lemma first_rank_exists:
  assumes "1 \<le> length col"
  shows "\<exists>i < length col. rank_first col ! i = 1"
proof -
  have "(1 :: rat) \<in> of_nat ` {1..length col}"
    using assms by (intro image_eqI [of _ _ 1]) simp_all
  then have "1 \<in> set (rank_first col)"
    by (simp add: set_rank_first)
  then show ?thesis
    by (auto simp: in_set_conv_nth length_rank_first)
qed

lemma descending_score_not_neutral:
  assumes "2 \<le> length col"
  shows "\<exists>i < length col. score_list col [4, 3, 2, 1] ! i = 4"
proof -
  obtain i where i: "i < length col" "rank_first col ! i = 1"
    using first_rank_exists [of col] assms by auto
  have "quartile (length col) 1 = 1" by (simp add: quartile_def edges_def)
  then have "score_list col [4, 3, 2, 1] ! i = 4"
    using assms i by (simp add: score_list_def length_rank_first)
  then show ?thesis using i by blast
qed

lemma length_aggregate_rows: "length (aggregate_rows df) = length (groupby CustomerID df)"
proof (cases df)
  case Nil
  then show ?thesis
    by (simp add: aggregate_rows_def series_max_def groupby_def List.map_filter_simps)
next
  case (Cons r rs)
  then show ?thesis
    by (simp add: aggregate_rows_def series_max_def Let_def)
qed

section \<open>The RFM engine\<close>

text \<open>
  What holds of every row of every result: the three scores lie between 1 and 4 and the
  RFM score is their sum, between 3 and 12. The segment code has three characters when
  TotalPrice is an integer column and nine when it is a float column.
\<close>

lemma score_list_in_range:
  assumes "length labels = 4" "set labels \<subseteq> {1..4}" "i < length col"
  shows "score_list col labels ! i \<in> {1..4}"
proof (cases "2 \<le> length col")
  case True
  let ?k = "quartile (length col) (rank_first col ! i)"
  have "1 \<le> ?k \<and> ?k \<le> 4"
    using rank_first_bounds [OF assms(3)] True by (intro quartile_range) simp_all
  then have "?k - 1 < length labels" using assms(1) by linarith
  then have "labels ! (?k - 1) \<in> set labels" by (rule nth_mem)
  then show ?thesis
    using True assms(2,3) by (auto simp: score_list_def length_rank_first)
next
  case False
  then show ?thesis using assms(3) by (simp add: score_list_def)
qed

lemma rfm_rows_nth_derived:
  assumes "i < length (aggregate_rows df)"
  shows "RFM_Score (rfm_rows df ! i)
           = R (rfm_rows df ! i) + F (rfm_rows df ! i) + M (rfm_rows df ! i)"
    and "RFM_Segment (rfm_rows df ! i)
           = (let dt = common_dtype [int64, int64, column_dtype (map TotalPrice df),
                                     int64, int64, int64]
              in str (row_scalar dt (R (rfm_rows df ! i))) @ str (row_scalar dt (F (rfm_rows df ! i)))
                 @ str (row_scalar dt (M (rfm_rows df ! i))))"
  using assms by (simp_all add: rfm_rows_def Let_def length_score_list)

lemma rfm_scores_in_range:
  assumes "row \<in> set (rfm_rows df)"
  shows "R row \<in> {1..4}" and "F row \<in> {1..4}" and "M row \<in> {1..4}"
    and "RFM_Score row = R row + F row + M row"
    and "3 \<le> RFM_Score row" and "RFM_Score row \<le> 12"
proof -
  obtain i where i: "i < length (aggregate_rows df)" "row = rfm_rows df ! i"
    using assms by (auto simp: in_set_conv_nth length_rfm_rows)
  show r: "R row \<in> {1..4}"
    using i by (simp only: rfm_rows_nth) (rule score_list_in_range, simp_all)
  show f: "F row \<in> {1..4}"
    using i by (simp only: rfm_rows_nth) (rule score_list_in_range, simp_all)
  show m: "M row \<in> {1..4}"
    using i by (simp only: rfm_rows_nth) (rule score_list_in_range, simp_all)
  show s: "RFM_Score row = R row + F row + M row"
    using i by (simp add: rfm_rows_nth_derived)
  show "3 \<le> RFM_Score row" "RFM_Score row \<le> 12"
    using r f m s by simp_all
qed

lemma digits_small: "n < 10 \<Longrightarrow> digits n = [''0123456789'' ! n]"
  by (subst digits.simps) simp

lemma str_int_score: "v \<in> {1..4} \<Longrightarrow> length (str_int v) = 1"
proof -
  assume "v \<in> {1..4}"
  then have "0 \<le> v" and "nat v < 10" by auto
  then show ?thesis
    by (simp add: str_int_def digits_small [of "nat v"])
qed

lemma segment_code_length:
  assumes "row \<in> set (rfm_rows df)"
  shows "length (RFM_Segment row) = (if list_all is_IntCell (map TotalPrice df) then 3 else 9)"
proof -
  obtain i where i: "i < length (aggregate_rows df)" "row = rfm_rows df ! i"
    using assms by (auto simp: in_set_conv_nth length_rfm_rows)
  note rg = rfm_scores_in_range(1-3) [OF assms, THEN str_int_score]
  show ?thesis
    using i rg
    by (simp add: rfm_rows_nth_derived Let_def common_dtype_def column_dtype_def row_scalar_def)
qed

text \<open>
  C1. The claim is that every row \<open>calculate_rfm\<close> returns has a segment code of three
  characters, the digits of R, F and M. On a frame whose TotalPrice column is float64
  (prices with decimals, the usual case) the rows reach the lambda of line 35 as float64
  Series and the code is nine characters long: for the customer with scores 4, 1, 1 it
  is \<open>4.01.01.0\<close>, not \<open>411\<close>. The scores themselves and their sum are as claimed
  (\<open>rfm_scores_in_range\<close>), and so is the code on an integer TotalPrice column
  (\<open>segment_code_length\<close>).
\<close>

theorem segment_code_float_rows:
  "calculate_rfm float_priced_df =
     Inr [\<lparr>R = 4, F = 1, M = 1,
           aggregate = \<lparr>customer = 13047, Recency = 1, Frequency = 1, MonetaryValue = 51 / 10\<rparr>,
           RFM_Segment = ''4.01.01.0'', RFM_Score = 6\<rparr>,
          \<lparr>R = 1, F = 4, M = 4,
           aggregate = \<lparr>customer = 17850, Recency = 3, Frequency = 1, MonetaryValue = 153 / 10\<rparr>,
           RFM_Segment = ''1.04.04.0'', RFM_Score = 9\<rparr>]"
  by code_simp

text \<open>
  C5. For two customers of the same result whose raw Monetary values satisfy
  \<open>m1 < m2\<close>, the M score of the customer with \<open>m2\<close> is at least that of the customer
  with \<open>m1\<close>. (Two such customers make a population of at least two, on which the
  Monetary metric is not degraded.)
\<close>

theorem monetary_score_monotone:
  assumes "calculate_rfm df = Inr rfm" "a \<in> set rfm" "b \<in> set rfm"
    and "MonetaryValue (aggregate a) < MonetaryValue (aggregate b)"
  shows "M a \<le> M b"
proof -
  have rfm: "rfm = rfm_rows df" using assms(1) by (rule calculate_rfm_rows)
  obtain i where i: "i < length (aggregate_rows df)" "a = rfm_rows df ! i"
    using assms(2) unfolding rfm by (auto simp: in_set_conv_nth length_rfm_rows)
  obtain k where k: "k < length (aggregate_rows df)" "b = rfm_rows df ! k"
    using assms(3) unfolding rfm by (auto simp: in_set_conv_nth length_rfm_rows)
  let ?col = "map MonetaryValue (aggregate_rows df)"
  have "?col ! i < ?col ! k"
    using assms(4) i k by (simp add: rfm_rows_nth)
  then have "score_list ?col [1, 2, 3, 4] ! i \<le> score_list ?col [1, 2, 3, 4] ! k"
    using i(1) k(1) by (intro ascending_score_mono) simp_all
  then show ?thesis
    using i k by (simp add: rfm_rows_nth)
qed

theorem monetary_score_monotone_witness:
  "calculate_rfm four_customers_df = Inr four_customers_rfm
   \<and> map (\<lambda>row. (MonetaryValue (aggregate row), M row)) four_customers_rfm
       = [(10, 1), (20, 2), (30, 3), (40, 4)]
   \<and> M (four_customers_rfm ! 0) \<le> M (four_customers_rfm ! 1)"
proof -
  have c: "calculate_rfm four_customers_df = Inr four_customers_rfm"
    by code_simp
  have a: "four_customers_rfm ! 0 \<in> set four_customers_rfm"
    and b: "four_customers_rfm ! 1 \<in> set four_customers_rfm"
    by (simp_all add: four_customers_rfm_def)
  have lt: "MonetaryValue (aggregate (four_customers_rfm ! 0))
            < MonetaryValue (aggregate (four_customers_rfm ! 1))"
    by (simp add: four_customers_rfm_def)
  have m: "map (\<lambda>row. (MonetaryValue (aggregate row), M row)) four_customers_rfm
           = [(10, 1), (20, 2), (30, 3), (40, 4)]"
    by (simp add: four_customers_rfm_def)
  show ?thesis
    using c m monetary_score_monotone [OF c a b lt] by simp
qed

subsection \<open>The recency scores\<close>

lemma map_aggregate_rfm_rows: "map aggregate (rfm_rows df) = aggregate_rows df"
  by (rule nth_equalityI) (simp_all add: length_rfm_rows rfm_rows_nth)

lemma map_R_rfm_rows:
  "map R (rfm_rows df)
     = score_list (map (\<lambda>a. of_int (Recency a)) (aggregate_rows df)) [4, 3, 2, 1]"
  by (rule nth_equalityI) (simp_all add: length_rfm_rows rfm_rows_nth length_score_list)

lemma map_F_rfm_rows:
  "map F (rfm_rows df)
     = score_list (map (\<lambda>a. of_int (Frequency a)) (aggregate_rows df)) [1, 2, 3, 4]"
  by (rule nth_equalityI) (simp_all add: length_rfm_rows rfm_rows_nth length_score_list)

lemma map_M_rfm_rows:
  "map M (rfm_rows df) = score_list (map MonetaryValue (aggregate_rows df)) [1, 2, 3, 4]"
  by (rule nth_equalityI) (simp_all add: length_rfm_rows rfm_rows_nth length_score_list)

lemma recency_column_rfm_rows:
  "map (\<lambda>row. (of_int (Recency (aggregate row)) :: rat)) (rfm_rows df)
     = map (\<lambda>a. of_int (Recency a)) (aggregate_rows df)"
  using map_aggregate_rfm_rows [of df, THEN arg_cong, of "map (\<lambda>a. (of_int (Recency a) :: rat))"]
  by (simp add: comp_def)

lemma quartile_first: "quartile n 1 = 1"
  by (simp add: quartile_def edges_def)

lemma quartile_last:
  assumes "2 \<le> n"
  shows "quartile n (of_nat n) = 4"
proof -
  define m :: rat where "m = of_nat (n - 1)"
  have m: "0 < m" using assms by (simp add: m_def)
  have n: "(of_nat n :: rat) = 1 + m" using assms by (simp add: m_def of_nat_diff)
  have "edges n = [1, 1 + m / 4, 1 + m / 2, 1 + 3 * m / 4, 1 + m]"
    by (simp add: edges_def m_def)
  then show ?thesis
    using m by (simp add: quartile_def searchsorted_left_def n)
qed

lemma descending_label:
  "1 \<le> k \<Longrightarrow> k \<le> 4 \<Longrightarrow> [4, 3, 2, 1 :: int] ! (k - Suc 0) = 5 - int k"
proof -
  assume "1 \<le> k" "k \<le> 4"
  then have "k = 1 \<or> k = 2 \<or> k = 3 \<or> k = 4" by linarith
  then show ?thesis by auto
qed

lemma descending_score_mono:
  assumes "i < length col" "k < length col" "col ! i < col ! k"
  shows "score_list col [4, 3, 2, 1] ! k \<le> score_list col [4, 3, 2, 1] ! i"
proof -
  let ?n = "length col"
  have n2: "2 \<le> ?n" using assms by (cases "i = k") auto
  have lt: "rank_first col ! i < rank_first col ! k"
    using assms by (intro rank_first_less) (simp_all add: before_def)
  have qi: "1 \<le> quartile ?n (rank_first col ! i) \<and> quartile ?n (rank_first col ! i) \<le> 4"
    using rank_first_bounds [OF assms(1)] n2 by (intro quartile_range) simp_all
  have qk: "1 \<le> quartile ?n (rank_first col ! k) \<and> quartile ?n (rank_first col ! k) \<le> 4"
    using rank_first_bounds [OF assms(2)] n2 by (intro quartile_range) simp_all
  have "quartile ?n (rank_first col ! i) \<le> quartile ?n (rank_first col ! k)"
    using rank_first_bounds(1) [OF assms(1)] lt by (intro quartile_mono) simp_all
  then show ?thesis
    using n2 assms(1,2) qi qk
    by (simp add: score_list_def length_rank_first descending_label)
qed

lemma last_rank_exists:
  assumes "1 \<le> length col"
  shows "\<exists>i < length col. rank_first col ! i = of_nat (length col)"
proof -
  have "(of_nat (length col) :: rat) \<in> of_nat ` {1..length col}"
    using assms by (intro imageI) simp
  then have "of_nat (length col) \<in> set (rank_first col)"
    by (simp add: set_rank_first)
  then show ?thesis
    by (auto simp: in_set_conv_nth length_rank_first)
qed

lemma descending_score_last:
  assumes "2 \<le> length col"
  shows "\<exists>i < length col. score_list col [4, 3, 2, 1] ! i = 1"
proof -
  obtain i where i: "i < length col" "rank_first col ! i = of_nat (length col)"
    using last_rank_exists [of col] assms by auto
  have "score_list col [4, 3, 2, 1] ! i = 1"
    using assms i by (simp add: score_list_def length_rank_first quartile_last)
  then show ?thesis using i by blast
qed

text \<open>
  C2 as stated fails: two customers who last bought on the same day have one distinct
  raw Recency value, fewer than four, and yet get the scores R = 4 and R = 1, not 2.
\<close>

theorem recency_single_value_counterexample:
  "calculate_rfm same_day_df =
     Inr [\<lparr>R = 4, F = 1, M = 1,
           aggregate = \<lparr>customer = 1, Recency = 1, Frequency = 1, MonetaryValue = 10\<rparr>,
           RFM_Segment = ''411'', RFM_Score = 6\<rparr>,
          \<lparr>R = 1, F = 4, M = 4,
           aggregate = \<lparr>customer = 2, Recency = 1, Frequency = 1, MonetaryValue = 20\<rparr>,
           RFM_Segment = ''144'', RFM_Score = 9\<rparr>]"
  by code_simp

text \<open>
  C2, amended. Scoring a Recency column never raises, whatever the number of its
  distinct values. When \<open>calculate_rfm\<close> returns, the result has one row per customer,
  and every customer has the neutral score R = 2 exactly when there is at most one
  customer. With two or more customers the ranks of the raw Recency values are
  distinct, they are the numbers 1 to n, the quartile binning of these ranks succeeds
  and the R column is its labels under 4, 3, 2, 1: some customer has R = 4, some
  customer has R = 1, and a customer with a larger raw Recency never has a larger R.
\<close>

theorem recency_scores_are_bin_labels:
  "(\<exists>s. score_column col [4, 3, 2, 1] = Inr s \<and> length s = length col)
   \<and> (calculate_rfm df = Inr rfm \<longrightarrow>
        length rfm = length (groupby CustomerID df)
      \<and> ((\<forall>row \<in> set rfm. R row = 2) \<longleftrightarrow> length rfm \<le> 1)
      \<and> (2 \<le> length rfm \<longrightarrow>
           distinct (rank_first (map (\<lambda>row. (of_int (Recency (aggregate row)) :: rat)) rfm))
         \<and> set (rank_first (map (\<lambda>row. (of_int (Recency (aggregate row)) :: rat)) rfm))
             = of_nat ` {1..length rfm}
         \<and> qcut (rank_first (map (\<lambda>row. (of_int (Recency (aggregate row)) :: rat)) rfm))
                [4, 3, 2, 1] = Inr (map R rfm)
         \<and> (\<exists>row \<in> set rfm. R row = 4)
         \<and> (\<exists>row \<in> set rfm. R row = 1)
         \<and> (\<forall>a \<in> set rfm. \<forall>b \<in> set rfm.
               Recency (aggregate a) < Recency (aggregate b) \<longrightarrow> R b \<le> R a)))"
proof -
  have total: "\<exists>s. score_column col [4, 3, 2, 1] = Inr s \<and> length s = length col"
    by (simp add: score_column_score_list length_score_list)
  have main: "length rfm = length (groupby CustomerID df)
      \<and> ((\<forall>row \<in> set rfm. R row = 2) \<longleftrightarrow> length rfm \<le> 1)
      \<and> (2 \<le> length rfm \<longrightarrow>
           distinct (rank_first (map (\<lambda>row. (of_int (Recency (aggregate row)) :: rat)) rfm))
         \<and> set (rank_first (map (\<lambda>row. (of_int (Recency (aggregate row)) :: rat)) rfm))
             = of_nat ` {1..length rfm}
         \<and> qcut (rank_first (map (\<lambda>row. (of_int (Recency (aggregate row)) :: rat)) rfm))
                [4, 3, 2, 1] = Inr (map R rfm)
         \<and> (\<exists>row \<in> set rfm. R row = 4)
         \<and> (\<exists>row \<in> set rfm. R row = 1)
         \<and> (\<forall>a \<in> set rfm. \<forall>b \<in> set rfm.
               Recency (aggregate a) < Recency (aggregate b) \<longrightarrow> R b \<le> R a))"
    if c: "calculate_rfm df = Inr rfm"
  proof -
    let ?agg = "aggregate_rows df"
    let ?col = "map (\<lambda>a. of_int (Recency a)) ?agg :: rat list"
    have rfm: "rfm = rfm_rows df" using c by (rule calculate_rfm_rows)
    have col: "map (\<lambda>row. (of_int (Recency (aggregate row)) :: rat)) rfm = ?col"
      unfolding rfm by (rule recency_column_rfm_rows)
    have n: "length rfm = length ?agg" "length ?col = length ?agg"
      by (simp_all add: rfm length_rfm_rows)
    have len: "length rfm = length (groupby CustomerID df)"
      by (simp add: n length_aggregate_rows)
    have scores: "map R rfm = score_list ?col [4, 3, 2, 1]"
      unfolding rfm by (rule map_R_rfm_rows)
    have nth_R: "R (rfm ! i) = score_list ?col [4, 3, 2, 1] ! i" if "i < length ?agg" for i
      using that by (simp add: rfm rfm_rows_nth)
    have small: "\<forall>row \<in> set rfm. R row = 2" if "length rfm \<le> 1"
    proof
      fix row assume "row \<in> set rfm"
      then obtain i where i: "i < length ?agg" "row = rfm ! i"
        by (auto simp: in_set_conv_nth n)
      then show "R row = 2"
        using that nth_R [OF i(1)] by (simp add: score_list_def n)
    qed
    have big: "distinct (rank_first ?col)
         \<and> set (rank_first ?col) = of_nat ` {1..length rfm}
         \<and> qcut (rank_first ?col) [4, 3, 2, 1] = Inr (map R rfm)
         \<and> (\<exists>row \<in> set rfm. R row = 4)
         \<and> (\<exists>row \<in> set rfm. R row = 1)
         \<and> (\<forall>a \<in> set rfm. \<forall>b \<in> set rfm.
               Recency (aggregate a) < Recency (aggregate b) \<longrightarrow> R b \<le> R a)"
      if two: "2 \<le> length rfm"
    proof -
      have two': "2 \<le> length ?col" using two by (simp add: n)
      have q: "qcut (rank_first ?col) [4, 3, 2, 1] = Inr (map R rfm)"
        using two' by (simp add: scores score_list_def qcut_rank_first)
      obtain i where i: "i < length ?col" "score_list ?col [4, 3, 2, 1] ! i = 4"
        using descending_score_not_neutral [OF two'] by blast
      then have "R (rfm ! i) = 4" "rfm ! i \<in> set rfm"
        using nth_R [of i] by (simp_all add: n)
      then have four: "\<exists>row \<in> set rfm. R row = 4" by blast
      obtain k where k: "k < length ?col" "score_list ?col [4, 3, 2, 1] ! k = 1"
        using descending_score_last [OF two'] by blast
      then have "R (rfm ! k) = 1" "rfm ! k \<in> set rfm"
        using nth_R [of k] by (simp_all add: n)
      then have one: "\<exists>row \<in> set rfm. R row = 1" by blast
      have mono: "R b \<le> R a"
        if a: "a \<in> set rfm" and b: "b \<in> set rfm"
          and lt: "Recency (aggregate a) < Recency (aggregate b)" for a b
      proof -
        obtain i where i: "i < length ?agg" "a = rfm ! i"
          using a by (auto simp: in_set_conv_nth n)
        obtain k where k: "k < length ?agg" "b = rfm ! k"
          using b by (auto simp: in_set_conv_nth n)
        have "?col ! i < ?col ! k"
          using lt i k by (simp add: rfm rfm_rows_nth)
        then have "score_list ?col [4, 3, 2, 1] ! k \<le> score_list ?col [4, 3, 2, 1] ! i"
          using i(1) k(1) by (intro descending_score_mono) simp_all
        then show ?thesis
          using i k nth_R by simp
      qed
      show ?thesis
        using q four one mono by (simp add: distinct_rank_first set_rank_first n)
    qed
    have iff: "(\<forall>row \<in> set rfm. R row = 2) \<longleftrightarrow> length rfm \<le> 1"
    proof (cases "2 \<le> length rfm")
      case True
      then have "\<exists>row \<in> set rfm. R row = 4" using big by blast
      then show ?thesis using True by fastforce
    next
      case False
      then show ?thesis using small by auto
    qed
    show ?thesis
      unfolding col using len iff big by blast
  qed
  show ?thesis
    using total main by blast
qed

theorem recency_scores_are_bin_labels_witness:
  "calculate_rfm three_recencies_df = Inr three_recencies_rfm
   \<and> qcut (rank_first [9, 5, 1 :: rat]) [4, 3, 2, 1] = Inr [1, 3, 4]
   \<and> map R three_recencies_rfm = [1, 3, 4]
   \<and> calculate_rfm one_customer_df
       = Inr [\<lparr>R = 2, F = 2, M = 2,
              aggregate = \<lparr>customer = 1, Recency = 1, Frequency = 1, MonetaryValue = 10\<rparr>,
              RFM_Segment = ''222'', RFM_Score = 6\<rparr>]"
proof -
  have c: "calculate_rfm three_recencies_df = Inr three_recencies_rfm"
    by code_simp
  have o: "calculate_rfm one_customer_df
             = Inr [\<lparr>R = 2, F = 2, M = 2,
                    aggregate = \<lparr>customer = 1, Recency = 1, Frequency = 1, MonetaryValue = 10\<rparr>,
                    RFM_Segment = ''222'', RFM_Score = 6\<rparr>]"
    by code_simp
  have l: "2 \<le> length three_recencies_rfm"
    by (simp add: three_recencies_rfm_def)
  have col: "map (\<lambda>row. (of_int (Recency (aggregate row)) :: rat)) three_recencies_rfm = [9, 5, 1]"
    and r: "map R three_recencies_rfm = [1, 3, 4]"
    by (simp_all add: three_recencies_rfm_def)
  from recency_scores_are_bin_labels [of _ three_recencies_df three_recencies_rfm] c l
  have "qcut (rank_first (map (\<lambda>row. (of_int (Recency (aggregate row)) :: rat)) three_recencies_rfm))
          [4, 3, 2, 1] = Inr (map R three_recencies_rfm)"
    by blast
  then show ?thesis
    using c o unfolding col r by simp
qed

subsection \<open>The call and the caller's objects\<close>

lemma frame_at_fresh: "frame_at (h @ [Frame f]) (length h) = Inr f"
  by (simp add: frame_at_def lookup_def)

lemma dtype_of_price_column: "dtype_of (price_column dt qs) = dt"
  by (cases dt) (simp_all add: price_column_def)

lemma column_values_price_column:
  "column_values (price_column (column_dtype (map TotalPrice rows))
     (map MonetaryValue (aggregate_rows rows))) = map MonetaryValue (aggregate_rows rows)"
proof (cases "column_dtype (map TotalPrice rows)")
  case int64
  have "of_int \<lfloor>MonetaryValue a\<rfloor> = MonetaryValue a" if "a \<in> set (aggregate_rows rows)" for a
    using that int64
    by (auto simp add: aggregate_rows_def price_sum_def split: option.splits)
  then show ?thesis
    using int64 by (simp add: price_column_def comp_def cong: map_cong)
next
  case float64
  then show ?thesis by (simp add: price_column_def)
qed

lemma groupby_agg_frame:
  assumes "lookup h df = Some (Transactions rows)"
  shows "groupby_agg df h =
     (if dates_representable rows
      then (Inr (length h),
            h @ [Frame \<lparr>frame_index = map customer (aggregate_rows rows),
                        frame_columns =
                          [(''InvoiceDate'', int64_column (map Recency (aggregate_rows rows))),
                           (''InvoiceNo'', int64_column (map Frequency (aggregate_rows rows))),
                           (''TotalPrice'',
                            price_column (column_dtype (map TotalPrice rows))
                              (map MonetaryValue (aggregate_rows rows)))],
                        text_columns = []\<rparr>])
      else (Inl OutOfBoundsDatetime, h))"
  using assms by (simp add: groupby_agg_def rfm_aggregate_eq)

lemma rename_fresh:
  "rename_inplace (length h) mapper (h @ [Frame f]) =
     Inr (h @ [Frame (f\<lparr>frame_columns :=
                 map (\<lambda>(label, c). (case map_of mapper label of Some new \<Rightarrow> new | None \<Rightarrow> label, c))
                     (frame_columns f)\<rparr>)])"
  by (simp add: rename_inplace_def frame_at_fresh)

lemma setitem_fresh:
  "setitem_inplace (length h) label c (h @ [Frame f]) =
     Inr (h @ [Frame (f\<lparr>frame_columns := assign label c (frame_columns f)\<rparr>)])"
  by (simp add: setitem_inplace_def frame_at_fresh)

lemma settext_fresh:
  "settext_inplace (length h) label c (h @ [Frame f]) =
     Inr (h @ [Frame (f\<lparr>text_columns := assign label c (text_columns f)\<rparr>)])"
  by (simp add: settext_inplace_def frame_at_fresh)

lemma assign_score_fresh:
  assumes "map_of (frame_columns f) col = Some c" "length labels = 4"
  shows "assign_score (length h) col labels (h @ [Frame f]) =
           Inr (h @ [Frame (f\<lparr>frame_columns :=
                  assign (take 1 col) (int64_column (score_list (column_values c) labels))
                         (frame_columns f)\<rparr>)])"
  using assms
  by (simp add: assign_score_def frame_at_fresh getitem_def score_column_score_list setitem_fresh)

lemma map_RFM_Score_rfm_rows:
  "map RFM_Score (rfm_rows df)
     = map (\<lambda>i. map R (rfm_rows df) ! i + map F (rfm_rows df) ! i + map M (rfm_rows df) ! i)
           [0..<length (aggregate_rows df)]"
  by (rule nth_equalityI) (simp_all add: length_rfm_rows rfm_rows_nth_derived)

lemma map_RFM_Segment_rfm_rows:
  "map RFM_Segment (rfm_rows df)
     = map (\<lambda>i. str (row_scalar (common_dtype [int64, int64, column_dtype (map TotalPrice df),
                                                  int64, int64, int64])
                         (map R (rfm_rows df) ! i))
                @ str (row_scalar (common_dtype [int64, int64, column_dtype (map TotalPrice df),
                                                  int64, int64, int64])
                         (map F (rfm_rows df) ! i))
                @ str (row_scalar (common_dtype [int64, int64, column_dtype (map TotalPrice df),
                                                  int64, int64, int64])
                         (map M (rfm_rows df) ! i)))
           [0..<length (aggregate_rows df)]"
  by (rule nth_equalityI) (simp_all add: length_rfm_rows rfm_rows_nth_derived Let_def)

lemma customers_rfm_rows:
  "map (\<lambda>row. customer (aggregate row)) (rfm_rows df)
     = sort (remdups (List.map_filter CustomerID df))"
proof -
  have "map customer (aggregate_rows df) = map fst (groupby CustomerID df)"
  proof (cases "series_max (map InvoiceDate df)")
    case None
    then have "df = []"
      by (cases df) (simp_all add: series_max_def)
    then show ?thesis
      by (simp add: aggregate_rows_def series_max_def groupby_def List.map_filter_simps)
  next
    case (Some latest)
    then show ?thesis
      by (simp add: aggregate_rows_def comp_def case_prod_unfold)
  qed
  then have "map customer (aggregate_rows df) = sort (remdups (List.map_filter CustomerID df))"
    by (simp add: groupby_def comp_def)
  then show ?thesis
    using map_aggregate_rfm_rows [of df, THEN arg_cong, of "map customer"]
    by (simp add: comp_def)
qed

lemma calculate_rfm_call_eq:
  assumes "lookup h df = Some (Transactions rows)"
  shows "calculate_rfm_call df h =
     (if dates_representable rows
      then (Inr (length h),
            h @ [Frame (to_frame (column_dtype (map TotalPrice rows)) (rfm_rows rows))])
      else (Inl OutOfBoundsDatetime, h))"
proof (cases "dates_representable rows")
  case False
  then show ?thesis
    by (simp add: calculate_rfm_call_def groupby_agg_frame [OF assms])
next
  case True
  define agg where "agg = aggregate_rows rows"
  define dt where "dt = column_dtype (map TotalPrice rows)"
  define rs where "rs = score_list (map (\<lambda>a. of_int (Recency a)) agg) [4, 3, 2, 1]"
  define fs where "fs = score_list (map (\<lambda>a. of_int (Frequency a)) agg) [1, 2, 3, 4]"
  define ms where "ms = score_list (map MonetaryValue agg) [1, 2, 3, 4]"
  define base where
    "base = [(''Recency'', int64_column (map Recency agg)),
             (''Frequency'', int64_column (map Frequency agg)),
             (''MonetaryValue'', price_column dt (map MonetaryValue agg))]"
  define f1 where "f1 = \<lparr>frame_index = map customer agg, frame_columns = base, text_columns = []\<rparr>"
  define f3 where
    "f3 = \<lparr>frame_index = map customer agg,
           frame_columns = base @ [(''R'', int64_column rs), (''F'', int64_column fs),
                             (''M'', int64_column ms)],
           text_columns = []\<rparr>"
  define f0 where
    "f0 = \<lparr>frame_index = map customer agg,
           frame_columns =
             [(''InvoiceDate'', int64_column (map Recency agg)),
              (''InvoiceNo'', int64_column (map Frequency agg)),
              (''TotalPrice'', price_column dt (map MonetaryValue agg))],
           text_columns = []\<rparr>"
  have s0: "groupby_agg df h = (Inr (length h), h @ [Frame f0])"
    using True by (simp add: groupby_agg_frame [OF assms] agg_def dt_def f0_def)
  have s1: "rename_inplace (length h)
              [(''InvoiceDate'', ''Recency''), (''InvoiceNo'', ''Frequency''),
               (''TotalPrice'', ''MonetaryValue'')] (h @ [Frame f0])
            = Inr (h @ [Frame f1])"
    by (simp add: rename_fresh f0_def f1_def base_def)
  have cv: "column_values (price_column dt (map MonetaryValue agg)) = map MonetaryValue agg"
    unfolding dt_def agg_def by (rule column_values_price_column)
  have s2: "scoring_loop (length h)
              [(''Recency'', [4, 3, 2, 1]), (''Frequency'', [1, 2, 3, 4]),
               (''MonetaryValue'', [1, 2, 3, 4])] (h @ [Frame f1])
            = Inr (h @ [Frame f3])"
    by (simp add: assign_score_fresh f1_def f3_def base_def cv rs_def fs_def ms_def comp_def)
  have len: "length rs = length agg" "length fs = length agg" "length ms = length agg"
    by (simp_all add: rs_def fs_def ms_def length_score_list)
  have R: "map R (rfm_rows rows) = rs" and F: "map F (rfm_rows rows) = fs"
    and M: "map M (rfm_rows rows) = ms"
    by (simp_all add: map_R_rfm_rows map_F_rfm_rows map_M_rfm_rows rs_def fs_def ms_def agg_def)
  have s3: "segment_codes f3 = Inr (map RFM_Segment (rfm_rows rows))"
    by (simp add: segment_codes_def int64_values_def getitem_def f3_def base_def
          dtype_of_price_column map_RFM_Segment_rfm_rows R F M agg_def [symmetric]
          dt_def [symmetric] Let_def)
  define f4 where "f4 = f3\<lparr>text_columns := [(''RFM_Segment'', map RFM_Segment (rfm_rows rows))]\<rparr>"
  have s3': "settext_inplace (length h) ''RFM_Segment'' (map RFM_Segment (rfm_rows rows))
               (h @ [Frame f3]) = Inr (h @ [Frame f4])"
    by (simp add: settext_fresh f4_def f3_def)
  have s4: "score_sums f4 = Inr (map RFM_Score (rfm_rows rows))"
    by (simp add: score_sums_def int64_values_def getitem_def f4_def f3_def base_def
          map_RFM_Score_rfm_rows R F M agg_def [symmetric])
  have agg_rows: "map aggregate (rfm_rows rows) = agg"
    by (simp add: map_aggregate_rfm_rows agg_def)
  have proj: "map (\<lambda>row. customer (aggregate row)) (rfm_rows rows) = map customer agg"
    "map (\<lambda>row. Recency (aggregate row)) (rfm_rows rows) = map Recency agg"
    "map (\<lambda>row. Frequency (aggregate row)) (rfm_rows rows) = map Frequency agg"
    "map (\<lambda>row. MonetaryValue (aggregate row)) (rfm_rows rows) = map MonetaryValue agg"
    using agg_rows [THEN arg_cong, of "map customer"] agg_rows [THEN arg_cong, of "map Recency"]
      agg_rows [THEN arg_cong, of "map Frequency"] agg_rows [THEN arg_cong, of "map MonetaryValue"]
    by (simp_all add: comp_def)
  have s5: "setitem_inplace (length h) ''RFM_Score'' (int64_column (map RFM_Score (rfm_rows rows)))
              (h @ [Frame f4])
            = Inr (h @ [Frame (to_frame dt (rfm_rows rows))])"
    by (simp add: setitem_fresh f4_def f3_def base_def to_frame_def proj R F M)
  show ?thesis
    using True
    by (simp add: calculate_rfm_call_def s0 s1 s2 frame_at_fresh s3 s3' s4 s5 dt_def [symmetric]
          del: scoring_loop.simps)
qed

text \<open>
  C9 as stated fails: \<open>calculate_rfm\<close> propagates an error on a frame whose latest
  invoice is dated 2262-04-11, the last day a Timestamp can hold. Line 15 adds one day
  to it outside the \<open>try\<close>, and the sum raises OutOfBoundsDatetime.
\<close>

theorem calculate_rfm_raises_counterexample:
  "calculate_rfm latest_day_df = Inl OutOfBoundsDatetime
   \<and> calculate_rfm_call 0 [Transactions latest_day_df]
       = (Inl OutOfBoundsDatetime, [Transactions latest_day_df])"
  by code_simp

text \<open>
  C9, amended. Let \<open>df\<close> refer to a transaction frame in the caller's heap. When the
  dates are representable (the latest invoice date plus one day is a Timestamp and
  every recency is a Timedelta), the call returns a reference to a new frame, appended
  to the heap, which holds the rows of \<open>calculate_rfm\<close>, one per customer in ascending
  order of the customers; otherwise it raises OutOfBoundsDatetime and allocates nothing. In both cases every object the caller
  had is unchanged, the frame \<open>df\<close> among them. On the frame without rows the call
  returns the frame without rows.
\<close>

theorem calculate_rfm_call_effect:
  assumes "lookup h df = Some (Transactions rows)"
  shows "(dates_representable rows \<longrightarrow>
            (\<exists>rfm. calculate_rfm rows = Inr rfm
               \<and> map (\<lambda>row. customer (aggregate row)) rfm
                   = sort (remdups (List.map_filter CustomerID rows))
               \<and> calculate_rfm_call df h
                   = (Inr (length h),
                      h @ [Frame (to_frame (column_dtype (map TotalPrice rows)) rfm)])))
       \<and> (\<not> dates_representable rows \<longrightarrow>
            calculate_rfm rows = Inl OutOfBoundsDatetime
            \<and> calculate_rfm_call df h = (Inl OutOfBoundsDatetime, h))
       \<and> take (length h) (snd (calculate_rfm_call df h)) = h
       \<and> lookup (snd (calculate_rfm_call df h)) df = Some (Transactions rows)
       \<and> (rows = [] \<longrightarrow>
            calculate_rfm rows = Inr []
            \<and> calculate_rfm_call df h = (Inr (length h), h @ [Frame empty_frame]))"
proof -
  note call = calculate_rfm_call_eq [OF assms]
  have df: "df < length h"
    using assms by (simp add: lookup_def split: if_splits)
  have a: "dates_representable rows \<longrightarrow>
            (\<exists>rfm. calculate_rfm rows = Inr rfm
               \<and> map (\<lambda>row. customer (aggregate row)) rfm
                   = sort (remdups (List.map_filter CustomerID rows))
               \<and> calculate_rfm_call df h
                   = (Inr (length h),
                      h @ [Frame (to_frame (column_dtype (map TotalPrice rows)) rfm)]))"
    by (simp add: call calculate_rfm_eq customers_rfm_rows)
  have b: "\<not> dates_representable rows \<longrightarrow>
            calculate_rfm rows = Inl OutOfBoundsDatetime
            \<and> calculate_rfm_call df h = (Inl OutOfBoundsDatetime, h)"
    by (simp add: call calculate_rfm_eq)
  have c: "take (length h) (snd (calculate_rfm_call df h)) = h"
    by (simp add: call)
  have d: "lookup (snd (calculate_rfm_call df h)) df = Some (Transactions rows)"
    using assms df by (simp add: call lookup_def nth_append)
  have e: "rows = [] \<longrightarrow>
            calculate_rfm rows = Inr []
            \<and> calculate_rfm_call df h = (Inr (length h), h @ [Frame empty_frame])"
  proof
    assume r: "rows = []"
    have 1: "dates_representable ([] :: 'a transaction_scheme list)"
      by (simp add: dates_representable_def series_max_def)
    have 2: "rfm_rows ([] :: 'a transaction_scheme list) = []"
      using length_rfm_rows [of "[] :: 'a transaction_scheme list"]
      by (simp add: length_aggregate_rows groupby_def List.map_filter_simps)
    have 3: "to_frame (column_dtype []) [] = empty_frame"
      by (simp add: to_frame_def empty_frame_def column_dtype_def price_column_def)
    show "calculate_rfm rows = Inr []
            \<and> calculate_rfm_call df h = (Inr (length h), h @ [Frame empty_frame])"
      using 1 2 3 by (simp add: call calculate_rfm_eq r)
  qed
  from a b c d e show ?thesis by blast
qed

theorem calculate_rfm_call_effect_witness:
  "lookup example_heap 1 = Some (Transactions three_recencies_df)
   \<and> dates_representable three_recencies_df
   \<and> calculate_rfm three_recencies_df = Inr three_recencies_rfm
   \<and> calculate_rfm_call 1 example_heap = (Inr 2, example_heap @ [Frame three_recencies_frame])
   \<and> take 2 (snd (calculate_rfm_call 1 example_heap)) = example_heap"
proof -
  have l: "lookup example_heap 1 = Some (Transactions three_recencies_df)"
    by (simp add: example_heap_def lookup_def)
  have d: "dates_representable three_recencies_df"
    by code_simp
  have c: "calculate_rfm three_recencies_df = Inr three_recencies_rfm"
    by code_simp
  have f: "to_frame (column_dtype (map TotalPrice three_recencies_df)) three_recencies_rfm
             = three_recencies_frame"
    by code_simp
  have n: "length example_heap = 2"
    by (simp add: example_heap_def)
  show ?thesis
    using calculate_rfm_call_effect [OF l] l d c f n by simp
qed

section \<open>Grouping, float64 and descending sorts\<close>

lemma set_map_filter_key: "set (List.map_filter key df) = {k. \<exists>r \<in> set df. key r = Some k}"
  by (induction df) (auto simp: List.map_filter_simps split: option.splits)

lemma map_fst_groupby: "map fst (groupby key df) = sort (remdups (List.map_filter key df))"
  by (simp add: groupby_def comp_def)

lemma distinct_groupby_keys: "distinct (map fst (groupby key df))"
  by (simp add: map_fst_groupby)

lemma sorted_groupby_keys: "sorted (map fst (groupby key df))"
  by (simp add: map_fst_groupby)

lemma groupby_mem:
  assumes "(k, g) \<in> set (groupby key df)"
  shows "g = filter (\<lambda>r. key r = Some k) df" and "g \<noteq> []" and "\<exists>r \<in> set df. key r = Some k"
proof -
  have k: "k \<in> set (List.map_filter key df)" and g: "g = filter (\<lambda>r. key r = Some k) df"
    using assms by (auto simp: groupby_def)
  show "g = filter (\<lambda>r. key r = Some k) df" by (rule g)
  show ex: "\<exists>r \<in> set df. key r = Some k"
    using k by (simp add: set_map_filter_key)
  then show "g \<noteq> []"
    by (auto simp: g filter_empty_conv)
qed

lemma groupby_mem_iff:
  "(k, g) \<in> set (groupby key df) \<longleftrightarrow>
     (\<exists>r \<in> set df. key r = Some k) \<and> g = filter (\<lambda>r. key r = Some k) df"
  by (auto simp: groupby_def set_map_filter_key)

lemma timedelta_days_nonneg: "0 \<le> d \<Longrightarrow> 0 \<le> timedelta_days d"
  by (simp add: timedelta_days_def day_ns_def pos_imp_zdiv_nonneg_iff)

lemma round_half_even_of_int: "round_half_even (of_int z) = z"
  by (simp add: round_half_even_def)

lemma pow2_nonneg: "0 \<le> e \<Longrightarrow> pow2 e = 2 ^ nat e"
  by (simp add: pow2_def)

lemma floor_log2_of_int:
  assumes "0 < m"
  shows "floor_log2 (of_int m) = bitlen m - 1"
proof -
  have b: "2 ^ nat (bitlen m - 1) \<le> m"
    using bitlen_bounds [OF assms] by simp
  have pos: "0 \<le> bitlen m - 1"
    using assms by (simp add: bitlen_def floorlog_def)
  have "pow2 (bitlen m - 1) \<le> of_int m"
  proof -
    have "(of_int (2 ^ nat (bitlen m - 1)) :: rat) \<le> of_int m"
      using b by (simp only: of_int_le_iff)
    then show ?thesis by (simp add: pow2_nonneg [OF pos])
  qed
  moreover have "bitlen 1 = 1"
    by (simp add: bitlen_def floorlog_def)
  ultimately show ?thesis
    by (simp add: floor_log2_def)
qed

lemma round64_nat:
  assumes "0 < m" "m \<le> 2 ^ 53"
  shows "round64 (of_int m) = of_int m"
proof -
  define d where "d = bitlen m - 1"
  have pos: "0 \<le> d"
    using assms(1) by (simp add: d_def bitlen_def floorlog_def)
  have lo: "2 ^ nat d \<le> m"
    using bitlen_bounds [OF assms(1)] by (simp add: d_def)
  have "(2 :: int) ^ nat d \<le> 2 ^ 53"
    using lo assms(2) by (rule order_trans)
  then have "nat d \<le> 53"
    by (rule power_le_imp_le_exp [rotated]) simp
  then have d53: "d \<le> 53" using pos by simp
  have e: "max (floor_log2 (of_int m)) (- 1022) = d"
    using assms(1) pos by (simp add: floor_log2_of_int d_def)
  have r: "round64 (of_int m)
             = of_int (round_half_even (of_int m / pow2 (d - 52))) * pow2 (d - 52)"
    using assms(1) by (simp add: round64_def Let_def e)
  show ?thesis
  proof (cases "d \<le> 52")
    case True
    define k where "k = nat (52 - d)"
    have ulp: "pow2 (d - 52) = 1 / 2 ^ k"
    proof (cases "d = 52")
      case True
      then show ?thesis by (simp add: pow2_def k_def)
    next
      case False
      then have "d - 52 < 0" using \<open>d \<le> 52\<close> by simp
      then show ?thesis by (simp add: pow2_def k_def)
    qed
    have "of_int m / (1 / 2 ^ k) = (of_int (m * 2 ^ k) :: rat)"
      by simp
    then have "round_half_even (of_int m / (1 / 2 ^ k)) = m * 2 ^ k"
      by (simp only: round_half_even_of_int)
    then show ?thesis
      by (simp add: r ulp)
  next
    case False
    then have d: "d = 53" using d53 by simp
    then have "2 ^ 53 \<le> m" using lo by simp
    then have m: "m = 2 ^ 53" using assms(2) by simp
    have ulp: "pow2 (d - 52) = 2"
      by (simp add: d pow2_def)
    have "(of_int m :: rat) / 2 = of_int (2 ^ 52)"
      by (simp add: m)
    then have "round_half_even (of_int m / 2) = 2 ^ 52"
      by (simp only: round_half_even_of_int)
    then show ?thesis
      by (simp add: r ulp) (simp add: m)
  qed
qed

lemma stable_argsort_contract: "argsort_contract stable_argsort"
  by (simp add: argsort_contract_def stable_argsort_def)

lemma sort_values_descending_props:
  assumes "argsort_contract argsort"
  shows "mset (sort_values_descending argsort key xs) = mset xs"
    and "sorted_wrt (\<lambda>a b. key b \<le> key a) (sort_values_descending argsort key xs)"
proof -
  define r where "r = rev xs"
  define ix where "ix = argsort (map key r)"
  have m: "mset ix = mset [0..<length r]"
    and s: "sorted (map (\<lambda>i. map key r ! i) ix)"
    using assms unfolding argsort_contract_def ix_def by (simp_all del: upt_Suc)
  have "set ix = set [0..<length r]"
    using m by (rule mset_eq_setD)
  then have range: "\<forall>i \<in> set ix. i < length r"
    by simp
  have res: "sort_values_descending argsort key xs = rev (map (\<lambda>i. r ! i) ix)"
    by (simp add: sort_values_descending_def r_def ix_def Let_def)
  have "mset (map (\<lambda>i. r ! i) ix) = image_mset (\<lambda>i. r ! i) (mset ix)"
    by simp
  also have "\<dots> = image_mset (\<lambda>i. r ! i) (mset [0..<length r])"
    by (simp only: m)
  also have "\<dots> = mset (map (\<lambda>i. r ! i) [0..<length r])"
    by simp
  also have "\<dots> = mset r"
    by (simp only: map_nth)
  finally show "mset (sort_values_descending argsort key xs) = mset xs"
    by (simp add: res r_def)
  have "map (\<lambda>i. map key r ! i) ix = map key (map (\<lambda>i. r ! i) ix)"
    using range by simp
  then have "sorted (map key (map (\<lambda>i. r ! i) ix))"
    using s by (simp only:)
  then have "sorted_wrt (\<lambda>a b. key a \<le> key b) (map (\<lambda>i. r ! i) ix)"
    by (simp only: sorted_map)
  then show "sorted_wrt (\<lambda>a b. key b \<le> key a) (sort_values_descending argsort key xs)"
    by (simp add: res sorted_wrt_rev)
qed

lemma Min_le_Max_dates:
  assumes "g \<noteq> []"
  shows "Min (set (map InvoiceDate g)) \<le> Max (set (map InvoiceDate g))"
proof -
  obtain r where r: "r \<in> set g" using assms by (cases g) auto
  have "Min (set (map InvoiceDate g)) \<le> InvoiceDate r"
    using r by (intro Min_le) simp_all
  moreover have "InvoiceDate r \<le> Max (set (map InvoiceDate g))"
    using r by (intro Max_ge) simp_all
  ultimately show ?thesis by (rule order_trans)
qed

lemma groupby_purchases:
  "(c, g) \<in> set (groupby CustomerID df) \<longleftrightarrow>
     (\<exists>r \<in> set df. CustomerID r = Some c) \<and> g = purchases_of df c"
  by (simp add: groupby_mem_iff purchases_of_def)

lemma spans_groups:
  "list_ex (\<lambda>(c, g). Timedelta_max
                        < Max (set (map InvoiceDate g)) - Min (set (map InvoiceDate g)))
           (groupby CustomerID df)
   \<longleftrightarrow> \<not> spans_representable df"
proof
  assume "list_ex (\<lambda>(c, g). Timedelta_max
                        < Max (set (map InvoiceDate g)) - Min (set (map InvoiceDate g)))
           (groupby CustomerID df)"
  then obtain c g where cg: "(c, g) \<in> set (groupby CustomerID df)"
    and big: "Timedelta_max < Max (set (map InvoiceDate g)) - Min (set (map InvoiceDate g))"
    by (auto simp: list_ex_iff)
  have g: "g = purchases_of df c" and ex: "\<exists>r \<in> set df. CustomerID r = Some c"
    using cg by (simp_all add: groupby_purchases)
  have ne: "set (map InvoiceDate g) \<noteq> {}"
    using ex by (auto simp: g purchases_of_def filter_empty_conv)
  have "Max (set (map InvoiceDate g)) \<in> set (map InvoiceDate g)"
    using ne by (intro Max_in) simp_all
  then obtain b where b: "b \<in> set g" "InvoiceDate b = Max (set (map InvoiceDate g))"
    by auto
  have "Min (set (map InvoiceDate g)) \<in> set (map InvoiceDate g)"
    using ne by (intro Min_in) simp_all
  then obtain a where a: "a \<in> set g" "InvoiceDate a = Min (set (map InvoiceDate g))"
    by auto
  have "a \<in> set df" "b \<in> set df" "CustomerID a = Some c" "CustomerID b = Some c"
    using a(1) b(1) by (simp_all add: g purchases_of_def)
  moreover have "\<not> InvoiceDate b - InvoiceDate a \<le> Timedelta_max"
    using big a(2) b(2) by simp
  ultimately show "\<not> spans_representable df"
    unfolding spans_representable_def by force
next
  assume "\<not> spans_representable df"
  then obtain a b c where ab: "a \<in> set df" "b \<in> set df"
    and c: "CustomerID a = Some c" "CustomerID b = Some c"
    and big: "Timedelta_max < InvoiceDate b - InvoiceDate a"
    unfolding spans_representable_def by (auto simp: not_le)
  define g where "g = purchases_of df c"
  have cg: "(c, g) \<in> set (groupby CustomerID df)"
    using ab(1) c(1) by (auto simp: groupby_purchases g_def)
  have "a \<in> set g" "b \<in> set g"
    using ab c by (simp_all add: g_def purchases_of_def)
  then have "Min (set (map InvoiceDate g)) \<le> InvoiceDate a"
    and "InvoiceDate b \<le> Max (set (map InvoiceDate g))"
    by (simp_all add: Min_le Max_ge)
  then have "Timedelta_max < Max (set (map InvoiceDate g)) - Min (set (map InvoiceDate g))"
    using big by linarith
  then show "list_ex (\<lambda>(c, g). Timedelta_max
                        < Max (set (map InvoiceDate g)) - Min (set (map InvoiceDate g)))
           (groupby CustomerID df)"
    using cg by (auto simp: list_ex_iff)
qed

lemma calculate_clv_eq:
  "calculate_clv argsort df =
     (if spans_representable df
      then Inr (sort_values_descending argsort clv
                  (map (\<lambda>(c, g). clv_record (column_dtype (map TotalPrice df)) c g)
                       (groupby CustomerID df)))
      else Inl OverflowError)"
  unfolding calculate_clv_def Let_def spans_groups by simp

lemma timedelta_days_bound:
  assumes "delta \<le> Timedelta_max"
  shows "timedelta_days delta \<le> 106751"
proof -
  have "delta div day_ns \<le> Timedelta_max div day_ns"
    using assms by (intro zdiv_mono1) (simp_all add: day_ns_def)
  then show ?thesis
    by (simp add: timedelta_days_def Timedelta_max_def day_ns_def)
qed

lemma true_divide_small:
  assumes "0 < a" "a \<le> 2 ^ 53" "0 < b" "b \<le> 2 ^ 53"
  shows "true_divide (of_int a) (of_int b) = round64 (of_int a / of_int b)"
  using assms by (simp add: true_divide_def round64_nat)

lemma clv_record_fields:
  fixes dt :: dtype
  assumes "g = purchases_of df c" "g \<noteq> []"
  defines "row \<equiv> clv_record dt c g"
  shows "clv_customer row = c"
    and "total_transactions row = int (card (set (map InvoiceNo (purchases_of df c))))"
    and "1 \<le> total_transactions row"
    and "first_purchase_date row = Min (set (map InvoiceDate (purchases_of df c)))"
    and "last_purchase_date row = Max (set (map InvoiceDate (purchases_of df c)))"
    and "purchase_lifespan row = timedelta_days (last_purchase_date row - first_purchase_date row)"
    and "0 \<le> purchase_lifespan row"
    and "purchase_frequency row
           = true_divide (of_int (total_transactions row)) (of_int (purchase_lifespan row + 1))"
    and "avg_order_value row = true_divide (total_revenue row) (of_int (total_transactions row))"
    and "clv row = multiply (multiply (avg_order_value row) (purchase_frequency row)) 365"
proof -
  show "clv_customer row = c"
    by (simp add: row_def clv_record_def Let_def)
  show "total_transactions row = int (card (set (map InvoiceNo (purchases_of df c))))"
    by (simp add: row_def clv_record_def Let_def assms(1) length_remdups_card_conv)
  have "remdups (map InvoiceNo g) \<noteq> []" using assms(2) by simp
  then obtain y ys where "remdups (map InvoiceNo g) = y # ys"
    by (cases "remdups (map InvoiceNo g)") auto
  then show "1 \<le> total_transactions row"
    by (simp add: row_def clv_record_def Let_def)
  show "first_purchase_date row = Min (set (map InvoiceDate (purchases_of df c)))"
    and "last_purchase_date row = Max (set (map InvoiceDate (purchases_of df c)))"
    by (simp_all add: row_def clv_record_def Let_def assms(1))
  show "purchase_lifespan row = timedelta_days (last_purchase_date row - first_purchase_date row)"
    by (simp add: row_def clv_record_def Let_def)
  show "0 \<le> purchase_lifespan row"
    using Min_le_Max_dates [OF assms(2)]
    by (simp add: row_def clv_record_def Let_def timedelta_days_nonneg)
  show "purchase_frequency row
           = true_divide (of_int (total_transactions row)) (of_int (purchase_lifespan row + 1))"
    and "avg_order_value row = true_divide (total_revenue row) (of_int (total_transactions row))"
    and "clv row = multiply (multiply (avg_order_value row) (purchase_frequency row)) 365"
    by (simp_all add: row_def clv_record_def Let_def)
qed

section \<open>Customer lifetime value\<close>

text \<open>
  C4 as stated fails on a non-empty frame: a customer who bought on 1696-03-17 and on
  2243-10-17 has purchases further apart than the largest Timedelta. Line 72 raises
  OverflowError, so no purchase frequency is computed and nothing is returned.
\<close>

theorem calculate_clv_overflow_counterexample:
  "length far_apart_df = 2
   \<and> calculate_clv stable_argsort far_apart_df = Inl OverflowError"
proof -
  have "length far_apart_df = 2"
    by (simp add: far_apart_df_def)
  moreover have "calculate_clv stable_argsort far_apart_df = Inl OverflowError"
    by code_simp
  ultimately show ?thesis by simp
qed

text \<open>
  C4, amended. Let \<open>argsort\<close> meet numpy's contract and the frame be non-empty. Then
  \<open>calculate_clv\<close> raises OverflowError exactly when some customer's purchases are
  further apart than the largest Timedelta, and returns a result otherwise. In every
  result the rows are in descending order of \<open>clv\<close> and every customer of the frame has
  exactly one row. In the row of a customer, \<open>total_transactions\<close> is the number of
  the customer's distinct invoices and is at least 1, the two dates are the earliest
  and the latest of the customer's invoice dates, \<open>purchase_lifespan\<close> is the whole days
  between them and is at least 0, and \<open>purchase_frequency\<close> is the float64 quotient of
  \<open>total_transactions\<close> by \<open>purchase_lifespan + 1\<close>, a divisor that is never zero: the
  exact quotient rounded to float64 as long as the count has at most 53 bits. A
  customer whose first and last purchase dates are equal has lifespan 0 and, under the
  same bound, a purchase frequency equal to the transaction count.
\<close>

theorem calculate_clv_guard_and_order:
  assumes "argsort_contract argsort" and "df \<noteq> []"
  shows "(calculate_clv argsort df = Inl OverflowError \<longleftrightarrow> \<not> spans_representable df)
   \<and> (spans_representable df \<longrightarrow> (\<exists>result. calculate_clv argsort df = Inr result))
   \<and> (\<forall>result. calculate_clv argsort df = Inr result \<longrightarrow>
        sorted_wrt (\<lambda>a b. clv b \<le> clv a) result
      \<and> distinct (map clv_customer result)
      \<and> set (map clv_customer result) = {c. \<exists>r \<in> set df. CustomerID r = Some c}
      \<and> (\<forall>row \<in> set result.
           total_transactions row
             = int (card (set (map InvoiceNo (purchases_of df (clv_customer row)))))
         \<and> 1 \<le> total_transactions row
         \<and> first_purchase_date row
             = Min (set (map InvoiceDate (purchases_of df (clv_customer row))))
         \<and> last_purchase_date row
             = Max (set (map InvoiceDate (purchases_of df (clv_customer row))))
         \<and> purchase_lifespan row
             = timedelta_days (last_purchase_date row - first_purchase_date row)
         \<and> 0 \<le> purchase_lifespan row
         \<and> purchase_frequency row
             = true_divide (of_int (total_transactions row)) (of_int (purchase_lifespan row + 1))
         \<and> (total_transactions row \<le> 2 ^ 53 \<longrightarrow>
              purchase_frequency row
                = round64 (of_int (total_transactions row) / of_int (purchase_lifespan row + 1)))
         \<and> (first_purchase_date row = last_purchase_date row \<longrightarrow>
              purchase_lifespan row = 0
              \<and> (total_transactions row \<le> 2 ^ 53 \<longrightarrow>
                   purchase_frequency row = of_int (total_transactions row)))
         \<and> clv row = multiply (multiply (avg_order_value row) (purchase_frequency row)) 365))"
proof -
  define dt where "dt = column_dtype (map TotalPrice df)"
  define rows where "rows = map (\<lambda>(c, g). clv_record dt c g) (groupby CustomerID df)"
  note eq = calculate_clv_eq [of argsort df, folded dt_def, folded rows_def]
  have a: "calculate_clv argsort df = Inl OverflowError \<longleftrightarrow> \<not> spans_representable df"
    by (simp add: eq)
  have b: "spans_representable df \<longrightarrow> (\<exists>result. calculate_clv argsort df = Inr result)"
    by (simp add: eq)
  have c: "sorted_wrt (\<lambda>a b. clv b \<le> clv a) result
      \<and> distinct (map clv_customer result)
      \<and> set (map clv_customer result) = {c. \<exists>r \<in> set df. CustomerID r = Some c}
      \<and> (\<forall>row \<in> set result.
           total_transactions row
             = int (card (set (map InvoiceNo (purchases_of df (clv_customer row)))))
         \<and> 1 \<le> total_transactions row
         \<and> first_purchase_date row
             = Min (set (map InvoiceDate (purchases_of df (clv_customer row))))
         \<and> last_purchase_date row
             = Max (set (map InvoiceDate (purchases_of df (clv_customer row))))
         \<and> purchase_lifespan row
             = timedelta_days (last_purchase_date row - first_purchase_date row)
         \<and> 0 \<le> purchase_lifespan row
         \<and> purchase_frequency row
             = true_divide (of_int (total_transactions row)) (of_int (purchase_lifespan row + 1))
         \<and> (total_transactions row \<le> 2 ^ 53 \<longrightarrow>
              purchase_frequency row
                = round64 (of_int (total_transactions row) / of_int (purchase_lifespan row + 1)))
         \<and> (first_purchase_date row = last_purchase_date row \<longrightarrow>
              purchase_lifespan row = 0
              \<and> (total_transactions row \<le> 2 ^ 53 \<longrightarrow>
                   purchase_frequency row = of_int (total_transactions row)))
         \<and> clv row = multiply (multiply (avg_order_value row) (purchase_frequency row)) 365)"
    if res: "calculate_clv argsort df = Inr result" for result
  proof -
    have spans: "spans_representable df"
      and result: "result = sort_values_descending argsort clv rows"
      using res by (simp_all add: eq split: if_splits)
    have ms: "mset result = mset rows"
      unfolding result by (rule sort_values_descending_props [OF assms(1)])
    have sorted: "sorted_wrt (\<lambda>a b. clv b \<le> clv a) result"
      unfolding result by (rule sort_values_descending_props [OF assms(1)])
    have keys: "map clv_customer rows = map fst (groupby CustomerID df)"
      by (simp add: rows_def comp_def case_prod_unfold clv_record_def Let_def)
    have "mset (map clv_customer result) = mset (map clv_customer rows)"
      using ms by simp
    then have mk: "mset (map clv_customer result) = mset (map fst (groupby CustomerID df))"
      by (simp only: keys)
    have dist: "distinct (map clv_customer result)"
      using mk distinct_groupby_keys [of CustomerID df] by (metis mset_eq_imp_distinct_iff)
    have "set (map clv_customer result) = set (map fst (groupby CustomerID df))"
      using mk by (rule mset_eq_setD)
    then have cust: "set (map clv_customer result) = {c. \<exists>r \<in> set df. CustomerID r = Some c}"
      by (simp only: map_fst_groupby set_sort set_remdups set_map_filter_key)
    have each: "total_transactions row
             = int (card (set (map InvoiceNo (purchases_of df (clv_customer row)))))
         \<and> 1 \<le> total_transactions row
         \<and> first_purchase_date row
             = Min (set (map InvoiceDate (purchases_of df (clv_customer row))))
         \<and> last_purchase_date row
             = Max (set (map InvoiceDate (purchases_of df (clv_customer row))))
         \<and> purchase_lifespan row
             = timedelta_days (last_purchase_date row - first_purchase_date row)
         \<and> 0 \<le> purchase_lifespan row
         \<and> purchase_frequency row
             = true_divide (of_int (total_transactions row)) (of_int (purchase_lifespan row + 1))
         \<and> (total_transactions row \<le> 2 ^ 53 \<longrightarrow>
              purchase_frequency row
                = round64 (of_int (total_transactions row) / of_int (purchase_lifespan row + 1)))
         \<and> (first_purchase_date row = last_purchase_date row \<longrightarrow>
              purchase_lifespan row = 0
              \<and> (total_transactions row \<le> 2 ^ 53 \<longrightarrow>
                   purchase_frequency row = of_int (total_transactions row)))
         \<and> clv row = multiply (multiply (avg_order_value row) (purchase_frequency row)) 365"
      if mem: "row \<in> set result" for row
    proof -
      have "row \<in> set rows"
        using mem ms by (metis mset_eq_setD)
      then obtain k g where kg: "(k, g) \<in> set (groupby CustomerID df)" "row = clv_record dt k g"
        by (auto simp: rows_def)
      have g: "g = purchases_of df k" and ex: "\<exists>r \<in> set df. CustomerID r = Some k"
        using kg(1) by (simp_all add: groupby_purchases)
      have ne: "g \<noteq> []"
        using kg(1) by (rule groupby_mem)
      note f = clv_record_fields [OF g ne, where dt = dt, folded kg(2)]
      have k: "clv_customer row = k" by (rule f)
      have tt1: "1 \<le> total_transactions row" by (rule f)
      have ls0: "0 \<le> purchase_lifespan row" by (rule f)
      have "\<not> list_ex (\<lambda>(c, g). Timedelta_max
                        < Max (set (map InvoiceDate g)) - Min (set (map InvoiceDate g)))
                 (groupby CustomerID df)"
        using spans unfolding spans_groups by simp
      then have "Max (set (map InvoiceDate g)) - Min (set (map InvoiceDate g)) \<le> Timedelta_max"
        using kg(1) by (auto simp: list_ex_iff not_less)
      then have "last_purchase_date row - first_purchase_date row \<le> Timedelta_max"
        by (simp add: f(4,5) g)
      then have ls: "purchase_lifespan row \<le> 106751"
        unfolding f(6) by (rule timedelta_days_bound)
      have pf: "purchase_frequency row
             = true_divide (of_int (total_transactions row)) (of_int (purchase_lifespan row + 1))"
        by (rule f)
      have small: "purchase_frequency row
                = round64 (of_int (total_transactions row) / of_int (purchase_lifespan row + 1))"
        if "total_transactions row \<le> 2 ^ 53"
        unfolding pf using tt1 that ls0 ls by (intro true_divide_small) simp_all
      have zero: "purchase_lifespan row = 0"
        if "first_purchase_date row = last_purchase_date row"
        using that by (simp add: f(6) timedelta_days_def)
      have count: "purchase_frequency row = of_int (total_transactions row)"
        if "first_purchase_date row = last_purchase_date row" "total_transactions row \<le> 2 ^ 53"
        using small [OF that(2)] zero [OF that(1)] tt1 that(2) by (simp add: round64_nat)
      show ?thesis
        using f(2,3,4,5,6,7,8,10) small zero count unfolding k by blast
    qed
    show ?thesis
      using sorted dist cust each by blast
  qed
  from a b c show ?thesis by blast
qed

theorem calculate_clv_guard_and_order_witness:
  "argsort_contract (stable_argsort :: rat list \<Rightarrow> nat list)
   \<and> single_day_df \<noteq> []
   \<and> calculate_clv stable_argsort single_day_df = Inr single_day_clv
   \<and> map clv_customer single_day_clv = [2, 1]
   \<and> first_purchase_date (single_day_clv ! 0) = last_purchase_date (single_day_clv ! 0)
   \<and> purchase_lifespan (single_day_clv ! 0) = 0
   \<and> total_transactions (single_day_clv ! 0) = 2
   \<and> purchase_frequency (single_day_clv ! 0) = 2
   \<and> purchase_frequency (single_day_clv ! 1) = round64 (2 / 11)
   \<and> sorted_wrt (\<lambda>a b. clv b \<le> clv a) single_day_clv"
proof -
  have ne: "single_day_df \<noteq> []"
    by (simp add: single_day_df_def)
  have c: "calculate_clv stable_argsort single_day_df = Inr single_day_clv"
    by code_simp
  have m: "single_day_clv ! 0 \<in> set single_day_clv" "single_day_clv ! 1 \<in> set single_day_clv"
    by (simp_all add: single_day_clv_def)
  have e: "first_purchase_date (single_day_clv ! 0) = last_purchase_date (single_day_clv ! 0)"
    and t: "total_transactions (single_day_clv ! 0) = 2"
    and u: "total_transactions (single_day_clv ! 1) = 2" "purchase_lifespan (single_day_clv ! 1) = 10"
    and k: "map clv_customer single_day_clv = [2, 1]"
    by (simp_all add: single_day_clv_def)
  note guard = calculate_clv_guard_and_order [OF stable_argsort_contract ne]
  from guard c have s: "sorted_wrt (\<lambda>a b. clv b \<le> clv a) single_day_clv"
    by blast
  from guard c m(1) e t have z: "purchase_lifespan (single_day_clv ! 0) = 0"
    and p: "purchase_frequency (single_day_clv ! 0) = 2"
    by force+
  from guard c m(2) u have q: "purchase_frequency (single_day_clv ! 1) = round64 (2 / 11)"
    by force
  show ?thesis
    using stable_argsort_contract ne c k e z t p q s by blast
qed

section \<open>Top products\<close>

text \<open>
  Whatever \<open>argsort\<close> meets the contract, \<open>get_top_products\<close> returns entries of the
  per-description sums in descending order of the sum. The order among products of
  equal sum is the one numpy's quicksort leaves them in, which the source does not
  determine.
\<close>

lemma get_top_products_descending:
  assumes "argsort_contract argsort"
  shows "sorted_wrt (\<lambda>a b. snd b \<le> snd a) (get_top_products argsort df top_n)"
    and "set (get_top_products argsort df top_n) \<subseteq> set (quantity_by_description df)"
proof -
  let ?s = "sort_values_descending argsort snd (quantity_by_description df)"
  have s: "sorted_wrt (\<lambda>a b. snd b \<le> snd a) ?s" and m: "mset ?s = mset (quantity_by_description df)"
    by (rule sort_values_descending_props [OF assms])+
  have "sorted_wrt (\<lambda>a b. snd b \<le> snd a) (take n ?s)" for n
    using s by (metis sorted_wrt_append append_take_drop_id)
  then show "sorted_wrt (\<lambda>a b. snd b \<le> snd a) (get_top_products argsort df top_n)"
    by (simp add: get_top_products_def head_def)
  have "set (take n ?s) \<subseteq> set (quantity_by_description df)" for n
    using set_take_subset [of n ?s] mset_eq_setD [OF m] by simp
  then show "set (get_top_products argsort df top_n) \<subseteq> set (quantity_by_description df)"
    by (simp add: get_top_products_def head_def)
qed

section \<open>Cleaning in place\<close>

lemma drop_seen_set: "set (drop_seen seen xs) = set xs - set seen"
  by (induction xs arbitrary: seen) auto

lemma drop_seen_distinct: "distinct (drop_seen seen xs)"
  by (induction xs arbitrary: seen) (auto simp: drop_seen_set)

lemma drop_seen_subseq: "subseq (drop_seen seen xs) xs"
  by (induction xs arbitrary: seen) auto

lemma drop_duplicates_facts:
  "set (drop_duplicates xs) = set xs" "distinct (drop_duplicates xs)"
  "subseq (drop_duplicates xs) xs"
  by (simp_all add: drop_duplicates_def drop_seen_set drop_seen_distinct drop_seen_subseq)

text \<open>
  C10. \<open>clean_data\<close> returns the reference it was given, and the frame stored under
  that reference is the old one without the rows that lack a CustomerID and without the
  later copies of equal rows, in the old order. So the caller's own reference, and every
  other variable holding it, sees a frame with no missing CustomerID and no duplicate
  row; frames under other references are unchanged.
\<close>

theorem clean_data_in_place:
  assumes "clean_data df h = (df', h')"
  shows "df' = df
    \<and> h' df = drop_duplicates (dropna_CustomerID (h df))
    \<and> list_all (\<lambda>r. CustomerID r \<noteq> None) (h' df)
    \<and> distinct (h' df)
    \<and> set (h' df) = {r \<in> set (h df). CustomerID r \<noteq> None}
    \<and> subseq (h' df) (h df)
    \<and> (\<forall>other. other \<noteq> df \<longrightarrow> h' other = h other)"
proof -
  have r: "df' = df" and h': "h' = h(df := drop_duplicates (dropna_CustomerID (h df)))"
    using assms by (auto simp: clean_data_def Let_def)
  have v: "h' df = drop_duplicates (dropna_CustomerID (h df))"
    by (simp add: h')
  have s: "set (h' df) = {r \<in> set (h df). CustomerID r \<noteq> None}"
    unfolding v by (auto simp: drop_duplicates_facts dropna_CustomerID_def)
  then have n: "list_all (\<lambda>r. CustomerID r \<noteq> None) (h' df)"
    by (simp add: list_all_iff)
  have d: "distinct (h' df)"
    unfolding v by (rule drop_duplicates_facts)
  have "subseq (h' df) (dropna_CustomerID (h df))"
    unfolding v by (rule drop_duplicates_facts)
  moreover have "subseq (dropna_CustomerID (h df)) (h df)"
    by (simp add: dropna_CustomerID_def)
  ultimately have q: "subseq (h' df) (h df)"
    by (rule subseq_order.order_trans)
  have o: "\<forall>other. other \<noteq> df \<longrightarrow> h' other = h other"
    by (simp add: h')
  show ?thesis using r v n d s q o by blast
qed

theorem clean_data_in_place_witness:
  "fst (clean_data 7 raw_store) = 7
   \<and> snd (clean_data 7 raw_store) 7
       = [tx 1 ''A1'' ''MUG'' 1 7 (IntCell 10), tx 2 ''A3'' ''PEN'' 2 8 (IntCell 40)]
   \<and> list_all (\<lambda>r. CustomerID r \<noteq> None) (snd (clean_data 7 raw_store) 7)
   \<and> distinct (snd (clean_data 7 raw_store) 7)"
proof -
  obtain df' h' where c: "clean_data 7 raw_store = (df', h')"
    by (cases "clean_data 7 raw_store")
  have e: "drop_duplicates (dropna_CustomerID (raw_store 7))
           = [tx 1 ''A1'' ''MUG'' 1 7 (IntCell 10), tx 2 ''A3'' ''PEN'' 2 8 (IntCell 40)]"
    by (simp add: raw_store_def drop_duplicates_def dropna_CustomerID_def tx_def)
  show ?thesis
    using clean_data_in_place [OF c] unfolding c e by (simp add: tx_def)
qed

section \<open>The ETL driver\<close>

lemma digits_chunk_size: "digits CHUNK_SIZE = ''10000''"
  by (simp add: digits.simps CHUNK_SIZE_def)

lemma chunks_short: "xs \<noteq> [] \<Longrightarrow> length xs \<le> n \<Longrightarrow> chunks n xs = [xs]"
proof -
  assume ne: "xs \<noteq> []" and le: "length xs \<le> n"
  then have n: "n \<noteq> 0" by (cases xs) auto
  have "chunks n (drop n xs) = []"
    using le by (subst chunks.simps) simp
  then show ?thesis
    using ne n le by (subst chunks.simps) simp
qed

lemma present_source_reaches_sink:
  "main one_file_world = (None, w) \<Longrightarrow>
   sink w =
     [Connect, DropTableIfExists ''sales'',
      Append ''sales'' [\<lparr>date = Some ''2024-01-01'', product_id = ''P1'',
                          quantity = Some 2, revenue = Some 0\<rparr>]]"
  by (auto simp: main_def read_csv_in_chunks_def read_csv_def logging_def execute_def Let_def
      one_file_world_def CSV_FILE_def CHUNK_SIZE_def chunks_short process_chunk_def
      pipeline_clean_data_def create_visualisation_def)

text \<open>
  C8. When the source file \<open>sales_data.csv\<close> does not exist, \<open>main\<close> logs the failure
  and returns without a single statement against the database: no connection, no table
  drop and no chunk append; no chart is saved either. The log holds the start line, the
  reading line, the error \<open>File not found: sales_data.csv\<close> and the finishing line.
  (\<open>present_source_reaches_sink\<close> shows the drop and the append when the file exists.)
\<close>

theorem missing_source_leaves_sink_untouched:
  assumes "files w CSV_FILE = None"
  shows "\<exists>w'. main w = (None, w')
    \<and> sink w' = sink w
    \<and> charts w' = charts w
    \<and> files w' = files w
    \<and> pipeline_log w' = pipeline_log w @
         [INFO ''Starting data pipeline...'',
          INFO ''Reading data from sales_data.csv in chunks of 10000...'',
          ERROR ''File not found: sales_data.csv'',
          INFO ''Data pipeline finished.'']"
proof -
  have c: "(1 :: nat) \<le> CHUNK_SIZE"
    by (simp add: CHUNK_SIZE_def)
  show ?thesis
    using assms c
    by (simp add: main_def read_csv_in_chunks_def read_csv_def logging_def Let_def
        digits_chunk_size CSV_FILE_def)
qed

theorem missing_source_leaves_sink_untouched_witness:
  "files empty_world CSV_FILE = None
   \<and> (\<exists>w'. main empty_world = (None, w')
          \<and> sink w' = []
          \<and> pipeline_log w' =
               [INFO ''Starting data pipeline...'',
                INFO ''Reading data from sales_data.csv in chunks of 10000...'',
                ERROR ''File not found: sales_data.csv'',
                INFO ''Data pipeline finished.''])"
proof -
  have f: "files empty_world CSV_FILE = None"
    by (simp add: empty_world_def)
  show ?thesis
    using missing_source_leaves_sink_untouched [OF f] f by (auto simp: empty_world_def)
qed

end
